theory Spec2Isabelle
  imports Complex_Main "HOL-Library.Log_Nat"
begin

section \<open>Values of the Python runtime\<close>

text \<open>
  The consumer of \<^verbatim>\<open>consumers/kafka_consumer_seabaugh.py\<close> receives each message as the
  result of \<^verbatim>\<open>json.loads\<close>: a tree of \<^verbatim>\<open>None\<close>, booleans, unbounded integers, floats,
  strings, lists and dictionaries. Strings are lists of 8-bit characters here (the code
  points up to U+00FF); a dictionary is an association list read with \<open>map_of\<close>.

  A Python float is an IEEE binary64 value. \<open>Finite q\<close> carries the exact rational value
  of a finite double; the sign of a zero is not kept. \<^verbatim>\<open>json.loads\<close> reads the tokens
  \<^verbatim>\<open>NaN\<close>, \<^verbatim>\<open>Infinity\<close> and \<^verbatim>\<open>-Infinity\<close> too, so all four shapes reach the code.
\<close>

datatype pyfloat = Finite rat | PosInf | NegInf | NaN

datatype json =
    JNull
  | JBool bool
  | JInt int
  | JFloat pyfloat
  | JStr string
  | JArr "json list"
  | JObj "(string \<times> json) list"

datatype pyexc =
    AttributeError
  | TypeError
  | ValueError
  | OverflowError
  | OperationalError
  | DatabaseError
  | ProgrammingError
  | KafkaError

datatype level = INFO | WARNING | ERROR

type_synonym log = "(level \<times> string) list"

subsection \<open>Float comparison\<close>

text \<open>
  Python's \<^verbatim>\<open>a > b\<close> and \<^verbatim>\<open>a < b\<close> on floats: every comparison with NaN is false.
\<close>

fun float_lt :: "pyfloat \<Rightarrow> pyfloat \<Rightarrow> bool" where
  "float_lt NaN _ = False"
| "float_lt _ NaN = False"
| "float_lt (Finite a) (Finite b) = (a < b)"
| "float_lt (Finite a) PosInf = True"
| "float_lt (Finite a) NegInf = False"
| "float_lt PosInf _ = False"
| "float_lt NegInf NegInf = False"
| "float_lt NegInf _ = True"

definition float_gt :: "pyfloat \<Rightarrow> pyfloat \<Rightarrow> bool" where
  "float_gt a b = float_lt b a"

fun float_neg :: "pyfloat \<Rightarrow> pyfloat" where
  "float_neg (Finite a) = Finite (- a)"
| "float_neg PosInf = NegInf"
| "float_neg NegInf = PosInf"
| "float_neg NaN = NaN"

subsection \<open>Rounding to binary64\<close>

text \<open>
  \<open>round_binary64\<close> is round-to-nearest, ties to even, onto 53 significant bits with
  exponents from -1022 (below it the spacing stays \<open>2^-1074\<close>: the subnormal range) to
  1023; a result of \<open>2^1024\<close> or more is an infinity.
\<close>

definition pow2 :: "int \<Rightarrow> rat" where
  "pow2 e = (if 0 \<le> e then 2 ^ nat e else 1 / 2 ^ nat (- e))"

definition floor_log2 :: "rat \<Rightarrow> int" where
  \<comment> \<open>for \<open>0 < x\<close>: the \<open>e\<close> with \<open>2^e \<le> x < 2^(e+1)\<close>\<close>
  "floor_log2 x =
     (if 1 \<le> x then bitlen \<lfloor>x\<rfloor> - 1 else - bitlen (\<lceil>1 / x\<rceil> - 1))"

definition round_half_even :: "rat \<Rightarrow> int" where
  "round_half_even x =
     (let f = \<lfloor>x\<rfloor>; r = x - of_int f
      in if r < 1 / 2 then f else if 1 / 2 < r then f + 1
         else if even f then f else f + 1)"

definition round_binary64 :: "rat \<Rightarrow> pyfloat" where
  "round_binary64 x =
     (if x = 0 then Finite 0
      else
        let a = \<bar>x\<bar>;
            e = max (floor_log2 a) (- 1022);
            u = pow2 (e - 52);
            y = of_int (round_half_even (a / u)) * u
        in if pow2 1024 \<le> y then (if 0 < x then PosInf else NegInf)
           else Finite (if 0 < x then y else - y))"

text \<open>
  The float literals of the source. \<^verbatim>\<open>0.1\<close> is not a double: the literal denotes the
  nearest one, \<open>3602879701896397 / 2^55\<close>.
\<close>

definition float_0_1 :: pyfloat where
  "float_0_1 = Finite (3602879701896397 / 36028797018963968)"

definition float_0_0 :: pyfloat where
  "float_0_0 = Finite 0"

subsection \<open>Reading numbers from strings\<close>

text \<open>
  \<^verbatim>\<open>int(s)\<close> and \<^verbatim>\<open>float(s)\<close> drop white space at both ends (among the code points up
  to U+00FF: tab, line feed, vertical tab, form feed, carriage return, space, U+0085 and
  U+00A0), read an optional sign, and then digits in which single underscores may stand
  between two digits.
\<close>

definition is_space :: "char \<Rightarrow> bool" where
  "is_space c = (of_char c \<in> {9, 10, 11, 12, 13, 32, 133, 160 :: nat})"

definition is_digit :: "char \<Rightarrow> bool" where
  "is_digit c = (48 \<le> (of_char c :: nat) \<and> (of_char c :: nat) \<le> 57)"

definition digit_val :: "char \<Rightarrow> int" where
  "digit_val c = of_char c - 48"

definition strip :: "string \<Rightarrow> string" where
  "strip s = rev (dropWhile is_space (rev (dropWhile is_space s)))"

fun digits_tail :: "string \<Rightarrow> int list \<times> string" where
  "digits_tail [] = ([], [])"
| "digits_tail (c # cs) =
     (if is_digit c then (case digits_tail cs of (ds, r) \<Rightarrow> (digit_val c # ds, r))
      else if c = CHR ''_'' then
        (case cs of
           [] \<Rightarrow> ([], c # cs)
         | d # cs' \<Rightarrow>
             if is_digit d then (case digits_tail cs' of (ds, r) \<Rightarrow> (digit_val d # ds, r))
             else ([], c # cs))
      else ([], c # cs))"

definition digitpart :: "string \<Rightarrow> (int list \<times> string) option" where
  \<comment> \<open>\<^verbatim>\<open>digit (["_"] digit)*\<close>, the longest one; the digits read and the rest\<close>
  "digitpart s =
     (case s of
        [] \<Rightarrow> None
      | c # cs \<Rightarrow>
          if is_digit c then (case digits_tail cs of (ds, r) \<Rightarrow> Some (digit_val c # ds, r))
          else None)"

definition decimal :: "int list \<Rightarrow> int" where
  "decimal ds = foldl (\<lambda>acc d. 10 * acc + d) 0 ds"

definition split_sign :: "string \<Rightarrow> bool \<times> string" where
  \<comment> \<open>\<open>True\<close> for a leading minus\<close>
  "split_sign s =
     (case s of
        [] \<Rightarrow> (False, [])
      | c # cs \<Rightarrow>
          if c = CHR ''-'' then (True, cs)
          else if c = CHR ''+'' then (False, cs)
          else (False, c # cs))"

definition int_max_str_digits :: nat where
  \<comment> \<open>CPython's default limit on the digits of an integer string\<close>
  "int_max_str_digits = 4300"

definition int_of_string :: "string \<Rightarrow> pyexc + int" where
  "int_of_string s =
     (case split_sign (strip s) of
        (neg, t) \<Rightarrow>
          (case digitpart t of
             Some (ds, []) \<Rightarrow>
               if int_max_str_digits < length ds then Inl ValueError
               else Inr (if neg then - decimal ds else decimal ds)
           | _ \<Rightarrow> Inl ValueError))"

definition lower :: "char \<Rightarrow> char" where
  "lower c =
     (if 65 \<le> (of_char c :: nat) \<and> (of_char c :: nat) \<le> 90
      then char_of (of_char c + 32 :: nat) else c)"

definition pow10 :: "int \<Rightarrow> rat" where
  "pow10 e = (if 0 \<le> e then 10 ^ nat e else 1 / 10 ^ nat (- e))"

definition float_exponent :: "string \<Rightarrow> int option" where
  \<comment> \<open>what follows the number: nothing, or \<^verbatim>\<open>("e" | "E") [sign] digitpart\<close> to the end\<close>
  "float_exponent r =
     (case r of
        [] \<Rightarrow> Some 0
      | c # cs \<Rightarrow>
          if c = CHR ''e'' \<or> c = CHR ''E'' then
            (case split_sign cs of
               (neg, t) \<Rightarrow>
                 (case digitpart t of
                    Some (ds, []) \<Rightarrow> Some (if neg then - decimal ds else decimal ds)
                  | _ \<Rightarrow> None))
          else None)"

definition float_number :: "string \<Rightarrow> rat option" where
  \<comment> \<open>\<^verbatim>\<open>([digitpart] "." digitpart | digitpart ["."]) [exponent]\<close>\<close>
  "float_number t =
     (case digitpart t of
        Some (ip, r) \<Rightarrow>
          (case r of
             c # r' \<Rightarrow>
               if c = CHR ''.'' then
                 (case digitpart r' of
                    Some (fp, r'') \<Rightarrow>
                      map_option
                        (\<lambda>e. of_int (decimal (ip @ fp)) * pow10 (e - int (length fp)))
                        (float_exponent r'')
                  | None \<Rightarrow>
                      map_option (\<lambda>e. of_int (decimal ip) * pow10 e) (float_exponent r'))
               else map_option (\<lambda>e. of_int (decimal ip) * pow10 e) (float_exponent r)
           | [] \<Rightarrow> Some (of_int (decimal ip)))
      | None \<Rightarrow>
          (case t of
             c # r' \<Rightarrow>
               if c = CHR ''.'' then
                 (case digitpart r' of
                    Some (fp, r'') \<Rightarrow>
                      map_option
                        (\<lambda>e. of_int (decimal fp) * pow10 (e - int (length fp)))
                        (float_exponent r'')
                  | None \<Rightarrow> None)
               else None
           | [] \<Rightarrow> None))"

definition float_of_string :: "string \<Rightarrow> pyexc + pyfloat" where
  "float_of_string s =
     (case split_sign (strip s) of
        (neg, t) \<Rightarrow>
          if map lower t = ''inf'' \<or> map lower t = ''infinity''
          then Inr (if neg then NegInf else PosInf)
          else if map lower t = ''nan'' then Inr NaN
          else
            (case float_number t of
               Some q \<Rightarrow> Inr (round_binary64 (if neg then - q else q))
             | None \<Rightarrow> Inl ValueError))"

subsection \<open>The built-in conversions\<close>

text \<open>
  \<^verbatim>\<open>float(x)\<close>: a bool or an int is converted (an int too large for a double raises
  OverflowError), a float is returned, a string is parsed, and anything else
  (\<^verbatim>\<open>None\<close>, a list, a dict) raises TypeError.
\<close>

definition float_of_int :: "int \<Rightarrow> pyexc + pyfloat" where
  "float_of_int n =
     (case round_binary64 (of_int n) of
        Finite q \<Rightarrow> Inr (Finite q)
      | _ \<Rightarrow> Inl OverflowError)"

fun py_float :: "json \<Rightarrow> pyexc + pyfloat" where
  "py_float JNull = Inl TypeError"
| "py_float (JBool b) = Inr (Finite (if b then 1 else 0))"
| "py_float (JInt n) = float_of_int n"
| "py_float (JFloat f) = Inr f"
| "py_float (JStr s) = float_of_string s"
| "py_float (JArr xs) = Inl TypeError"
| "py_float (JObj kvs) = Inl TypeError"

text \<open>
  \<^verbatim>\<open>int(x)\<close>: a float is truncated toward zero (NaN raises ValueError, an infinity
  OverflowError), a string is parsed as a decimal integer.
\<close>

definition trunc :: "rat \<Rightarrow> int" where
  "trunc q = (if 0 \<le> q then \<lfloor>q\<rfloor> else \<lceil>q\<rceil>)"

fun int_of_float :: "pyfloat \<Rightarrow> pyexc + int" where
  "int_of_float (Finite q) = Inr (trunc q)"
| "int_of_float NaN = Inl ValueError"
| "int_of_float PosInf = Inl OverflowError"
| "int_of_float NegInf = Inl OverflowError"

fun py_int :: "json \<Rightarrow> pyexc + int" where
  "py_int JNull = Inl TypeError"
| "py_int (JBool b) = Inr (if b then 1 else 0)"
| "py_int (JInt n) = Inr n"
| "py_int (JFloat f) = int_of_float f"
| "py_int (JStr s) = int_of_string s"
| "py_int (JArr xs) = Inl TypeError"
| "py_int (JObj kvs) = Inl TypeError"

text \<open>Truth value of an object, as \<^verbatim>\<open>if x:\<close> tests it.\<close>

fun truthy :: "json \<Rightarrow> bool" where
  "truthy JNull = False"
| "truthy (JBool b) = b"
| "truthy (JInt n) = (n \<noteq> 0)"
| "truthy (JFloat f) = (f \<noteq> Finite 0)"
| "truthy (JStr s) = (s \<noteq> [])"
| "truthy (JArr xs) = (xs \<noteq> [])"
| "truthy (JObj kvs) = (kvs \<noteq> [])"

text \<open>
  \<^verbatim>\<open>d.get(k)\<close> and \<^verbatim>\<open>d.get(k, default)\<close> on a dictionary with string keys: the default
  stands in only for a key that is absent, not for a key whose value is \<^verbatim>\<open>None\<close>.
\<close>

definition dict_get :: "(string \<times> json) list \<Rightarrow> string \<Rightarrow> json" where
  "dict_get kvs k = (case map_of kvs k of None \<Rightarrow> JNull | Some v \<Rightarrow> v)"

definition dict_get_default :: "(string \<times> json) list \<Rightarrow> string \<Rightarrow> json \<Rightarrow> json" where
  "dict_get_default kvs k d = (case map_of kvs k of None \<Rightarrow> d | Some v \<Rightarrow> v)"

section \<open>The classifier and the normalizer\<close>

text \<open>The table \<^verbatim>\<open>KEYWORD_CATEGORIES\<close> of the source, in its order.\<close>

definition KEYWORD_CATEGORIES :: "(string \<times> string) list" where
  "KEYWORD_CATEGORIES =
     [(''meme'', ''humor''),
      (''Python'', ''tech''),
      (''JavaScript'', ''tech''),
      (''recipe'', ''food''),
      (''travel'', ''travel''),
      (''movie'', ''entertainment''),
      (''game'', ''gaming'')]"

text \<open>
  \<^verbatim>\<open>KEYWORD_CATEGORIES.get(k, default)\<close> for any object \<open>k\<close>: a list or a dict cannot be
  hashed, and the lookup raises TypeError; a string is looked up; \<^verbatim>\<open>None\<close>, a bool, an
  int and a float are hashable and equal to no string key.
\<close>

fun hashable :: "json \<Rightarrow> bool" where
  "hashable (JArr xs) = False"
| "hashable (JObj kvs) = False"
| "hashable _ = True"

fun KEYWORD_CATEGORIES_get :: "json \<Rightarrow> string \<Rightarrow> pyexc + string" where
  "KEYWORD_CATEGORIES_get (JStr k) d =
     Inr (case map_of KEYWORD_CATEGORIES k of None \<Rightarrow> d | Some c \<Rightarrow> c)"
| "KEYWORD_CATEGORIES_get (JArr xs) d = Inl TypeError"
| "KEYWORD_CATEGORIES_get (JObj kvs) d = Inl TypeError"
| "KEYWORD_CATEGORIES_get _ d = Inr d"

definition categorize_sentiment :: "pyfloat \<Rightarrow> string" where
  "categorize_sentiment sentiment_score =
     (if float_gt sentiment_score float_0_1 then ''positive''
      else if float_lt sentiment_score (float_neg float_0_1) then ''negative''
      else ''neutral'')"

text \<open>
  The dictionary \<^verbatim>\<open>process_message\<close> builds. The three pass-through fields and
  \<^verbatim>\<open>keyword_mentioned\<close> hold whatever object the message had under the key.
\<close>

record processed =
  message :: json
  author :: json
  timestamp :: json
  category :: string
  sentiment :: pyfloat
  sentiment_category :: string
  keyword_mentioned :: json
  message_length :: int

text \<open>
  The body of the \<^verbatim>\<open>try\<close> block of \<^verbatim>\<open>process_message\<close>, statement by statement: the
  records logged so far, and the exception raised or the dictionary built. A message
  that is not a dictionary has no \<^verbatim>\<open>get\<close>, and the first statement raises.
  Log records keep the fixed part of their text.
\<close>

definition keyword_alert :: "json \<Rightarrow> string \<Rightarrow> log" where
  "keyword_alert kw cat =
     (if truthy kw then
        (if cat \<noteq> ''unknown'' then [(INFO, ''Alert: Detected category for keyword'')]
         else [(WARNING, ''Keyword not found in categories'')])
      else [(WARNING, ''No keyword mentioned in message'')])"

definition process_message_try :: "json \<Rightarrow> log \<times> (pyexc + processed)" where
  "process_message_try msg =
     (case msg of
        JObj kvs \<Rightarrow>
          (let kw = dict_get kvs ''keyword_mentioned'' in
           case KEYWORD_CATEGORIES_get kw ''unknown'' of
             Inl e \<Rightarrow> ([], Inl e)
           | Inr cat \<Rightarrow>
               (case py_float (dict_get_default kvs ''sentiment'' (JFloat float_0_0)) of
                  Inl e \<Rightarrow> ([], Inl e)
                | Inr sentiment_score \<Rightarrow>
                    (case py_int (dict_get_default kvs ''message_length'' (JInt 0)) of
                       Inl e \<Rightarrow> (keyword_alert kw cat, Inl e)
                     | Inr n \<Rightarrow>
                         (keyword_alert kw cat,
                          Inr \<lparr>message = dict_get kvs ''message'',
                               author = dict_get kvs ''author'',
                               timestamp = dict_get kvs ''timestamp'',
                               category = cat,
                               sentiment = sentiment_score,
                               sentiment_category = categorize_sentiment sentiment_score,
                               keyword_mentioned = kw,
                               message_length = n\<rparr>))))
      | _ \<Rightarrow> ([], Inl AttributeError))"

text \<open>
  \<^verbatim>\<open>process_message\<close>: \<^verbatim>\<open>processed_message\<close> starts as \<^verbatim>\<open>None\<close> and is returned as it
  stands after the \<^verbatim>\<open>try\<close>; every \<^verbatim>\<open>Exception\<close> of the body is caught and logged.
  The result is the returned value and the log records written.
\<close>

definition process_message :: "json \<Rightarrow> processed option \<times> log" where
  "process_message msg =
     (case process_message_try msg of
        (l, Inl e) \<Rightarrow>
          (None,
           [(INFO, ''Called process_message() with:''), (INFO, ''message='')] @ l @
           [(ERROR, ''Error processing message'')])
      | (l, Inr p) \<Rightarrow>
          (Some p,
           [(INFO, ''Called process_message() with:''), (INFO, ''message='')] @ l @
           [(INFO, ''Processed message'')]))"

section \<open>The store\<close>

text \<open>
  The SQLite file at \<^verbatim>\<open>sql_path\<close>: absent, not a database, or a database in which the
  table \<^verbatim>\<open>messages\<close> exists or not. A table is its rows and the counter behind
  \<^verbatim>\<open>AUTOINCREMENT\<close> (the largest id handed out). The world around it says whether
  \<^verbatim>\<open>sqlite3.connect\<close> can open or create the file and whether the file can be unlinked.
  A row holds the values as they were bound to the statement, before the type affinity of
  a column converts them (a \<^verbatim>\<open>TEXT\<close> column stores the bound number 5 as the text \<^verbatim>\<open>'5'\<close>);
  no statement below reads the stored form of a value.
\<close>

datatype sqlval = SqlNull | SqlInt int | SqlReal pyfloat | SqlText string

record row =
  row_id :: nat
  col_message :: sqlval
  col_author :: sqlval
  col_timestamp :: sqlval
  col_category :: sqlval
  col_sentiment :: sqlval
  col_sentiment_category :: sqlval
  col_keyword_mentioned :: sqlval
  col_message_length :: sqlval

record table =
  rows :: "row list"
  seq :: nat

datatype sqlite_file = Absent | NotADatabase | Database "table option"

record world =
  medium_ok :: bool
  unlink_ok :: bool
  store_file :: sqlite_file

definition empty_table :: table where
  "empty_table = \<lparr>rows = [], seq = 0\<rparr>"

text \<open>
  \<^verbatim>\<open>init_db\<close>: connect (which creates a missing file), then
  \<^verbatim>\<open>CREATE TABLE IF NOT EXISTS messages\<close>. The world afterwards and the exception raised,
  if any.
\<close>

definition init_db :: "world \<Rightarrow> world \<times> pyexc option" where
  "init_db w =
     (if \<not> medium_ok w then (w, Some OperationalError)
      else
        (case store_file w of
           Absent \<Rightarrow> (w\<lparr>store_file := Database (Some empty_table)\<rparr>, None)
         | NotADatabase \<Rightarrow> (w, Some DatabaseError)
         | Database None \<Rightarrow> (w\<lparr>store_file := Database (Some empty_table)\<rparr>, None)
         | Database (Some t) \<Rightarrow> (w, None)))"

text \<open>
  Binding a Python object to a statement parameter: \<^verbatim>\<open>None\<close>, ints that fit 64 bits,
  floats and strings are supported; a list or a dict is not.
\<close>

fun bind_param :: "json \<Rightarrow> pyexc + sqlval" where
  "bind_param JNull = Inr SqlNull"
| "bind_param (JBool b) = Inr (SqlInt (if b then 1 else 0))"
| "bind_param (JInt n) =
     (if - (2 ^ 63) \<le> n \<and> n < 2 ^ 63 then Inr (SqlInt n) else Inl OverflowError)"
| "bind_param (JFloat f) = Inr (if f = NaN then SqlNull else SqlReal f)"
| "bind_param (JStr s) = Inr (SqlText s)"
| "bind_param (JArr xs) = Inl ProgrammingError"
| "bind_param (JObj kvs) = Inl ProgrammingError"

fun bind_all :: "json list \<Rightarrow> pyexc + sqlval list" where
  "bind_all [] = Inr []"
| "bind_all (v # vs) =
     (case bind_param v of
        Inl e \<Rightarrow> Inl e
      | Inr x \<Rightarrow> (case bind_all vs of Inl e \<Rightarrow> Inl e | Inr xs \<Rightarrow> Inr (x # xs)))"

definition insert_params :: "processed \<Rightarrow> json list" where
  "insert_params m =
     [message m, author m, timestamp m, JStr (category m), JFloat (sentiment m),
      JStr (sentiment_category m), keyword_mentioned m, JInt (message_length m)]"

definition append_row :: "table \<Rightarrow> sqlval list \<Rightarrow> table" where
  "append_row t vs =
     \<lparr>rows = rows t @
        [\<lparr>row_id = Suc (seq t),
          col_message = vs ! 0, col_author = vs ! 1, col_timestamp = vs ! 2,
          col_category = vs ! 3, col_sentiment = vs ! 4, col_sentiment_category = vs ! 5,
          col_keyword_mentioned = vs ! 6, col_message_length = vs ! 7\<rparr>],
      seq = Suc (seq t)\<rparr>"

text \<open>
  \<^verbatim>\<open>insert_message\<close>: connect, prepare the \<^verbatim>\<open>INSERT\<close> (which fails when the table is
  missing), bind the eight values, commit. The function has no handler of its own.
\<close>

definition insert_message :: "processed \<Rightarrow> world \<Rightarrow> world \<times> pyexc option" where
  "insert_message m w =
     (if \<not> medium_ok w then (w, Some OperationalError)
      else
        (case store_file w of
           Absent \<Rightarrow> (w\<lparr>store_file := Database None\<rparr>, Some OperationalError)
         | NotADatabase \<Rightarrow> (w, Some DatabaseError)
         | Database None \<Rightarrow> (w, Some OperationalError)
         | Database (Some t) \<Rightarrow>
             (case bind_all (insert_params m) of
                Inl e \<Rightarrow> (w, Some e)
              | Inr vs \<Rightarrow> (w\<lparr>store_file := Database (Some (append_row t vs))\<rparr>, None))))"

section \<open>The ingestion loop\<close>

text \<open>
  The Kafka consumer is an iterator outside this repository: its \<open>i\<close>-th
  \<^verbatim>\<open>__next__\<close> yields a deserialized value, raises an \<^verbatim>\<open>Exception\<close> (the broker, or
  the deserializer on a payload that is not JSON), is interrupted from the keyboard, or
  stops the iteration. A consumer that never stops is a function that never answers
  \<open>Stop\<close>, and the loop over it does not return: \<open>None\<close> below.
\<close>

datatype consumer_event = Yield json | Raise pyexc | Interrupt | Stop

type_synonym consumer = "nat \<Rightarrow> consumer_event"

text \<open>
  How a call ends: it returns, raises an \<^verbatim>\<open>Exception\<close>, lets a \<^verbatim>\<open>KeyboardInterrupt\<close>
  through, or raises \<^verbatim>\<open>SystemExit\<close> from \<^verbatim>\<open>sys.exit(n)\<close>.
\<close>

datatype outcome = Returned | Raised pyexc | Interrupted | SysExit int

text \<open>
  The \<^verbatim>\<open>for\<close> statement of \<^verbatim>\<open>consume_messages_from_kafka\<close>, from the \<open>i\<close>-th pull on:
  \<^verbatim>\<open>
  for message in consumer:
      processed_message = process_message(message.value)
      if processed_message:
          insert_message(processed_message, sql_path)
  \<close>
\<close>

partial_function (option) for_message_in_consumer ::
  "consumer \<Rightarrow> nat \<Rightarrow> world \<Rightarrow> log \<Rightarrow> (outcome \<times> world \<times> log) option" where
  "for_message_in_consumer c i w l =
     (case c i of
        Stop \<Rightarrow> Some (Returned, w, l)
      | Raise e \<Rightarrow> Some (Raised e, w, l)
      | Interrupt \<Rightarrow> Some (Interrupted, w, l)
      | Yield v \<Rightarrow>
          (case process_message v of
             (None, pl) \<Rightarrow> for_message_in_consumer c (Suc i) w (l @ pl)
           | (Some processed_message, pl) \<Rightarrow>
               (case insert_message processed_message w of
                  (w', Some e) \<Rightarrow> Some (Raised e, w', l @ pl)
                | (w', None) \<Rightarrow> for_message_in_consumer c (Suc i) w' (l @ pl))))"

text \<open>
  The collaborators of \<^verbatim>\<open>utils\<close>, which are not part of the consumer module: what each
  call does when the process runs. \<^verbatim>\<open>create_kafka_consumer\<close> may return \<^verbatim>\<open>None\<close>.
\<close>

record env =
  read_config :: "pyexc option"
  verify_services :: "pyexc option"
  create_kafka_consumer :: "pyexc + consumer option"
  is_topic_available :: "pyexc option"

text \<open>
  The \<^verbatim>\<open>try\<close> around the loop: \<^verbatim>\<open>except Exception\<close> logs and raises again; nothing else
  is handled there.
\<close>

definition consume_try :: "consumer \<Rightarrow> world \<Rightarrow> log \<Rightarrow> (outcome \<times> world \<times> log) option" where
  "consume_try c w l =
     (case for_message_in_consumer c 0 w l of
        None \<Rightarrow> None
      | Some (Raised e, w', l') \<Rightarrow>
          Some (Raised e, w', l' @ [(ERROR, ''ERROR: Could not consume messages from Kafka'')])
      | Some r \<Rightarrow> Some r)"

definition consume_messages_from_kafka :: "env \<Rightarrow> world \<Rightarrow> (outcome \<times> world \<times> log) option" where
  "consume_messages_from_kafka ev w =
     (let l1 = [(INFO, ''Called consume_messages_from_kafka() with:''), (INFO, ''topic=''),
                (INFO, ''kafka_url=''), (INFO, ''group=''), (INFO, ''sql_path=''),
                (INFO, ''interval_secs=''), (INFO, ''Step 1. Verify Kafka Services.'')]
      in
      case verify_services ev of
        Some e \<Rightarrow>
          Some (SysExit 11, w, l1 @ [(ERROR, ''ERROR: Kafka services verification failed'')])
      | None \<Rightarrow>
          (let l2 = l1 @ [(INFO, ''Step 2. Create a Kafka consumer.'')] in
           case create_kafka_consumer ev of
             Inl e \<Rightarrow>
               Some (SysExit 11, w, l2 @ [(ERROR, ''ERROR: Could not create Kafka consumer'')])
           | Inr None \<Rightarrow>
               Some (SysExit 13, w,
                 l2 @ [(INFO, ''Step 3. Verify topic exists.''),
                       (INFO, ''Step 4. Process messages.''),
                       (ERROR, ''ERROR: Consumer is None. Exiting.'')])
           | Inr (Some c) \<Rightarrow>
               (let l3 = l2 @ [(INFO, ''Step 3. Verify topic exists.'')] in
                case is_topic_available ev of
                  Some e \<Rightarrow>
                    Some (SysExit 13, w, l3 @ [(ERROR, ''ERROR: Topic does not exist.'')])
                | None \<Rightarrow>
                    consume_try c w
                      (l3 @ [(INFO, ''Kafka topic is ready.''),
                             (INFO, ''Step 4. Process messages.'')]))))"

section \<open>The process\<close>

text \<open>
  Steps 2 and 3 of \<^verbatim>\<open>main\<close>: unlink the file if it exists, then \<^verbatim>\<open>init_db\<close>. \<open>Inl\<close>
  is \<^verbatim>\<open>sys.exit(n)\<close>, with the world the process leaves behind.
\<close>

definition delete_prior_file :: "world \<Rightarrow> (int + world) \<times> log" where
  "delete_prior_file w =
     (if store_file w \<noteq> Absent then
        (if unlink_ok w
         then (Inr (w\<lparr>store_file := Absent\<rparr>), [(INFO, ''SUCCESS: Deleted database file.'')])
         else (Inl 2, [(ERROR, ''ERROR: Failed to delete DB file'')]))
      else (Inr w, []))"

definition bootstrap_store :: "world \<Rightarrow> (int \<times> world + world) \<times> log" where
  "bootstrap_store w =
     (case delete_prior_file w of
        (Inl n, l) \<Rightarrow>
          (Inl (n, w), [(INFO, ''STEP 2. Delete any prior database file for a fresh start.'')] @ l)
      | (Inr w1, l) \<Rightarrow>
          (let l2 = [(INFO, ''STEP 2. Delete any prior database file for a fresh start.'')] @ l @
                    [(INFO, ''STEP 3. Initialize a new database with an empty table.'')]
           in
           case init_db w1 of
             (w2, Some e) \<Rightarrow> (Inl (3, w2), l2 @ [(ERROR, ''ERROR: Failed to create db table'')])
           | (w2, None) \<Rightarrow> (Inr w2, l2)))"

text \<open>
  How the process ends: \<^verbatim>\<open>SystemExit\<close> with a code, or \<^verbatim>\<open>main\<close> returning, after which
  the interpreter exits with status 0.
\<close>

datatype process_end = SystemExit int | Finished

fun exit_code :: "process_end \<Rightarrow> int" where
  "exit_code (SystemExit n) = n"
| "exit_code Finished = 0"

text \<open>
  \<^verbatim>\<open>main\<close>. Step 4 handles \<^verbatim>\<open>KeyboardInterrupt\<close> and \<^verbatim>\<open>Exception\<close> by logging;
  \<^verbatim>\<open>SystemExit\<close> is neither, passes the \<^verbatim>\<open>finally\<close> clause and ends the process.
\<close>

definition main :: "env \<Rightarrow> world \<Rightarrow> (process_end \<times> world \<times> log) option" where
  "main ev w =
     (let l0 = [(INFO, ''Starting Consumer to run continuously.''),
                (INFO, ''Moved .env variables into a utils config module.''),
                (INFO, ''STEP 1. Read environment variables using new config functions.'')]
      in
      case read_config ev of
        Some e \<Rightarrow>
          Some (SystemExit 1, w, l0 @ [(ERROR, ''ERROR: Failed to read environment variables'')])
      | None \<Rightarrow>
          (let l1 = l0 @ [(INFO, ''SUCCESS: Read environment variables.'')] in
           case bootstrap_store w of
             (Inl (n, w1), l) \<Rightarrow> Some (SystemExit n, w1, l1 @ l)
           | (Inr w2, l) \<Rightarrow>
               (let l3 = l1 @ l @ [(INFO, ''STEP 4. Begin consuming and storing messages.'')] in
                case consume_messages_from_kafka ev w2 of
                  None \<Rightarrow> None
                | Some (Returned, w3, l4) \<Rightarrow>
                    Some (Finished, w3, l3 @ l4 @ [(INFO, ''Consumer shutting down.'')])
                | Some (Interrupted, w3, l4) \<Rightarrow>
                    Some (Finished, w3,
                      l3 @ l4 @ [(WARNING, ''Consumer interrupted by user.''),
                                 (INFO, ''Consumer shutting down.'')])
                | Some (Raised e, w3, l4) \<Rightarrow>
                    Some (Finished, w3,
                      l3 @ l4 @ [(ERROR, ''Unexpected error''),
                                 (INFO, ''Consumer shutting down.'')])
                | Some (SysExit n, w3, l4) \<Rightarrow>
                    Some (SystemExit n, w3, l3 @ l4 @ [(INFO, ''Consumer shutting down.'')]))))"

section \<open>Notions used in the statements\<close>

text \<open>
  A consumer that yields the events of a list and then stops; the stream without its
  \<open>i\<close>-th event; a result of the loop without its log; the rows of the table
  \<^verbatim>\<open>messages\<close>, if there is one; the exit status of a run of \<^verbatim>\<open>main\<close>.
\<close>

definition consumer_of :: "consumer_event list \<Rightarrow> consumer" where
  "consumer_of es = (\<lambda>i. if i < length es then es ! i else Stop)"

definition skip_at :: "nat \<Rightarrow> consumer \<Rightarrow> consumer" where
  "skip_at i c = (\<lambda>j. if j < i then c j else c (Suc j))"

definition drop_log :: "(outcome \<times> world \<times> log) option \<Rightarrow> (outcome \<times> world) option" where
  "drop_log r = map_option (\<lambda>(out, w, l). (out, w)) r"

definition stored_rows :: "world \<Rightarrow> row list" where
  "stored_rows w = (case store_file w of Database (Some t) \<Rightarrow> rows t | _ \<Rightarrow> [])"

definition exit_status :: "(process_end \<times> world \<times> log) option \<Rightarrow> int option" where
  "exit_status r = map_option (\<lambda>(x, w, l). exit_code x) r"

section \<open>Example inputs\<close>

text \<open>Records, streams, stores and environments at which the functions are evaluated.\<close>

definition example_meme :: "(string \<times> json) list" where
  "example_meme =
     [(''message'', JStr ''check this meme''), (''author'', JStr ''alice''),
      (''timestamp'', JStr ''2024-01-01T00:00:00''), (''keyword_mentioned'', JStr ''meme''),
      (''sentiment'', JFloat (Finite (1 / 2))), (''message_length'', JInt 15)]"

definition example_no_keyword :: "(string \<times> json) list" where
  "example_no_keyword =
     [(''message'', JStr ''hi''), (''author'', JStr ''bob''), (''timestamp'', JStr ''t''),
      (''sentiment'', JFloat (Finite (- 1 / 2))), (''message_length'', JInt 2)]"

definition unhashable_keyword_record :: "(string \<times> json) list" where
  "unhashable_keyword_record =
     [(''keyword_mentioned'', JArr [JStr ''meme'']), (''sentiment'', JFloat (Finite (1 / 2))),
      (''message_length'', JInt 3)]"

definition sentiment_abc_record :: "(string \<times> json) list" where
  "sentiment_abc_record =
     [(''message'', JStr ''hi''), (''sentiment'', JStr ''abc''), (''message_length'', JInt 2)]"

definition null_sentiment_record :: "(string \<times> json) list" where
  "null_sentiment_record =
     [(''message'', JStr ''hi''), (''sentiment'', JNull), (''message_length'', JInt 2)]"

definition no_sentiment_record :: "(string \<times> json) list" where
  "no_sentiment_record = [(''message'', JStr ''hi''), (''message_length'', JInt 2)]"

definition fractional_length_record :: "(string \<times> json) list" where
  "fractional_length_record =
     [(''message'', JStr ''hi''), (''sentiment'', JFloat (Finite (1 / 2))),
      (''message_length'', JFloat (Finite (4419157134357299 / 281474976710656)))]"

definition fractional_string_length_record :: "(string \<times> json) list" where
  "fractional_string_length_record =
     [(''message'', JStr ''hi''), (''sentiment'', JFloat (Finite (1 / 2))),
      (''message_length'', JStr ''15.7'')]"

definition bad_sentiment_fractional_length_record :: "(string \<times> json) list" where
  "bad_sentiment_fractional_length_record =
     [(''message'', JStr ''hi''), (''sentiment'', JStr ''abc''),
      (''message_length'', JFloat (Finite (4419157134357299 / 281474976710656)))]"

definition fresh_world :: world where
  "fresh_world = \<lparr>medium_ok = True, unlink_ok = True, store_file = Database (Some empty_table)\<rparr>"

definition three_records :: consumer where
  "three_records =
     consumer_of [Yield (JObj example_meme), Yield (JObj sentiment_abc_record),
                  Yield (JObj example_no_keyword)]"

definition no_table_world :: world where
  "no_table_world = \<lparr>medium_ok = True, unlink_ok = True, store_file = Database None\<rparr>"

definition two_records :: consumer where
  "two_records = consumer_of [Yield (JObj example_meme), Yield (JObj example_no_keyword)]"

definition failing_stream :: consumer where
  "failing_stream = consumer_of [Raise KafkaError, Yield (JObj example_meme)]"

definition services_up :: "consumer \<Rightarrow> env" where
  "services_up c =
     \<lparr>read_config = None, verify_services = None, create_kafka_consumer = Inr (Some c),
      is_topic_available = None\<rparr>"

definition undeletable_world :: world where
  "undeletable_world =
     \<lparr>medium_ok = True, unlink_ok = False, store_file = Database (Some empty_table)\<rparr>"

definition unreachable_world :: world where
  "unreachable_world = \<lparr>medium_ok = False, unlink_ok = True, store_file = Absent\<rparr>"

definition interrupted_stream :: consumer where
  "interrupted_stream = consumer_of [Interrupt]"

section \<open>Properties of the classifier\<close>

lemma float_lt_gt_excl: "float_lt s (float_neg float_0_1) \<Longrightarrow> \<not> float_gt s float_0_1"
  by (cases s) (simp_all add: float_gt_def float_0_1_def)

text \<open>
  C1. For every sentiment score \<open>s\<close>, \<^verbatim>\<open>categorize_sentiment\<close> returns \<^verbatim>\<open>"positive"\<close> if
  \<open>s > 0.1\<close>, \<^verbatim>\<open>"negative"\<close> if \<open>s < -0.1\<close> and \<^verbatim>\<open>"neutral"\<close> otherwise, which includes
  every finite score in the closed range from \<open>-0.1\<close> to \<open>0.1\<close> and the two boundary
  values themselves. The function has no failing branch: on every float, NaN and the
  infinities included, the result is one of the three labels.
\<close>

theorem categorize_sentiment_thresholds:
  "(float_gt s float_0_1 \<longrightarrow> categorize_sentiment s = ''positive'') \<and>
   (float_lt s (float_neg float_0_1) \<longrightarrow> categorize_sentiment s = ''negative'') \<and>
   (\<not> float_gt s float_0_1 \<and> \<not> float_lt s (float_neg float_0_1) \<longrightarrow>
      categorize_sentiment s = ''neutral'') \<and>
   (\<forall>q. s = Finite q \<and> - (3602879701896397 / 36028797018963968) \<le> q \<and>
        q \<le> 3602879701896397 / 36028797018963968 \<longrightarrow> categorize_sentiment s = ''neutral'') \<and>
   categorize_sentiment float_0_1 = ''neutral'' \<and>
   categorize_sentiment (float_neg float_0_1) = ''neutral'' \<and>
   categorize_sentiment s \<in> {''positive'', ''negative'', ''neutral''}"
  using float_lt_gt_excl [of s]
  by (auto simp add: categorize_sentiment_def float_gt_def float_0_1_def)

theorem categorize_sentiment_thresholds_witness:
  "float_gt (Finite (1 / 2)) float_0_1 \<and> categorize_sentiment (Finite (1 / 2)) = ''positive'' \<and>
   float_lt (Finite (- 1 / 2)) (float_neg float_0_1) \<and>
   categorize_sentiment (Finite (- 1 / 2)) = ''negative'' \<and>
   \<not> float_gt NaN float_0_1 \<and> \<not> float_lt NaN (float_neg float_0_1) \<and>
   categorize_sentiment NaN = ''neutral'' \<and>
   categorize_sentiment (Finite (1 / 20)) = ''neutral''"
  using categorize_sentiment_thresholds [of "Finite (1 / 2)"]
    categorize_sentiment_thresholds [of "Finite (- 1 / 2)"]
    categorize_sentiment_thresholds [of NaN]
    categorize_sentiment_thresholds [of "Finite (1 / 20)"]
  by (simp add: float_gt_def float_0_1_def)

section \<open>Properties of the normalizer\<close>

lemma process_message_fst:
  "fst (process_message (JObj kvs)) =
     (case KEYWORD_CATEGORIES_get (dict_get kvs ''keyword_mentioned'') ''unknown'' of
        Inl e \<Rightarrow> None
      | Inr cat \<Rightarrow>
          (case py_float (dict_get_default kvs ''sentiment'' (JFloat float_0_0)) of
             Inl e \<Rightarrow> None
           | Inr f \<Rightarrow>
               (case py_int (dict_get_default kvs ''message_length'' (JInt 0)) of
                  Inl e \<Rightarrow> None
                | Inr n \<Rightarrow>
                    Some \<lparr>message = dict_get kvs ''message'',
                          author = dict_get kvs ''author'',
                          timestamp = dict_get kvs ''timestamp'',
                          category = cat,
                          sentiment = f,
                          sentiment_category = categorize_sentiment f,
                          keyword_mentioned = dict_get kvs ''keyword_mentioned'',
                          message_length = n\<rparr>)))"
  by (simp add: process_message_def process_message_try_def Let_def split: sum.splits)

lemma KEYWORD_CATEGORIES_get_hashable:
  "(\<exists>e. KEYWORD_CATEGORIES_get v d = Inl e) \<longleftrightarrow> \<not> hashable v"
  by (cases v) simp_all

lemma KEYWORD_CATEGORIES_values:
  "map_of KEYWORD_CATEGORIES k = Some c \<Longrightarrow> c \<noteq> ''unknown''"
  by (auto simp add: KEYWORD_CATEGORIES_def split: if_splits)

lemma KEYWORD_CATEGORIES_labels:
  "map_of KEYWORD_CATEGORIES k = Some c \<Longrightarrow>
     c \<in> {''humor'', ''tech'', ''food'', ''travel'', ''entertainment'', ''gaming''}"
  by (auto simp add: KEYWORD_CATEGORIES_def split: if_splits)

lemma KEYWORD_CATEGORIES_get_unknown:
  "KEYWORD_CATEGORIES_get v ''unknown'' = Inr cat \<Longrightarrow>
     (\<forall>k c. v = JStr k \<and> map_of KEYWORD_CATEGORIES k = Some c \<longrightarrow> cat = c) \<and>
     (cat = ''unknown'' \<longleftrightarrow> (\<forall>k. v = JStr k \<longrightarrow> map_of KEYWORD_CATEGORIES k = None))"
  by (cases v) (auto split: option.splits dest: KEYWORD_CATEGORIES_values)

text \<open>
  C2. For every raw record that \<^verbatim>\<open>process_message\<close> processes successfully, \<open>category\<close> is
  the value of \<^verbatim>\<open>KEYWORD_CATEGORIES\<close> at \<open>keyword_mentioned\<close> when that is a string which is a
  key of the table (compared exactly, case included), and it is \<^verbatim>\<open>"unknown"\<close> if and only
  if \<open>keyword_mentioned\<close> is absent, \<^verbatim>\<open>None\<close>, or not a key of the table. The field is
  always a string: one of the table's labels or \<^verbatim>\<open>"unknown"\<close>.
\<close>

theorem category_from_keyword:
  assumes "fst (process_message (JObj kvs)) = Some p"
  shows "(\<forall>k c. map_of kvs ''keyword_mentioned'' = Some (JStr k) \<and>
            map_of KEYWORD_CATEGORIES k = Some c \<longrightarrow> category p = c) \<and>
         (category p = ''unknown'' \<longleftrightarrow>
            map_of kvs ''keyword_mentioned'' = None \<or>
            map_of kvs ''keyword_mentioned'' = Some JNull \<or>
            (\<forall>k. map_of kvs ''keyword_mentioned'' = Some (JStr k) \<longrightarrow>
                 map_of KEYWORD_CATEGORIES k = None)) \<and>
         category p \<in> {''humor'', ''tech'', ''food'', ''travel'', ''entertainment'', ''gaming'',
                        ''unknown''}"
proof -
  let ?kw = "dict_get kvs ''keyword_mentioned''"
  from assms obtain cat where cat: "KEYWORD_CATEGORIES_get ?kw ''unknown'' = Inr cat"
    and p: "category p = cat"
    by (auto simp add: process_message_fst split: sum.splits)
  note u = KEYWORD_CATEGORIES_get_unknown [OF cat]
  have a: "\<forall>k c. map_of kvs ''keyword_mentioned'' = Some (JStr k) \<and>
            map_of KEYWORD_CATEGORIES k = Some c \<longrightarrow> category p = c"
    using u p by (auto simp add: dict_get_def)
  have b: "category p = ''unknown'' \<longleftrightarrow>
            map_of kvs ''keyword_mentioned'' = None \<or>
            map_of kvs ''keyword_mentioned'' = Some JNull \<or>
            (\<forall>k. map_of kvs ''keyword_mentioned'' = Some (JStr k) \<longrightarrow>
                 map_of KEYWORD_CATEGORIES k = None)"
    using u p by (auto simp add: dict_get_def split: option.splits)
  have c: "category p \<in> {''humor'', ''tech'', ''food'', ''travel'', ''entertainment'', ''gaming'',
                        ''unknown''}"
    using cat p by (cases ?kw) (auto split: option.splits dest: KEYWORD_CATEGORIES_labels)
  from a b c show ?thesis by blast
qed

lemmas eval_defs =
  process_message_fst dict_get_def dict_get_default_def KEYWORD_CATEGORIES_def
  categorize_sentiment_def float_gt_def float_0_1_def float_0_0_def

lemma example_meme_processed:
  "fst (process_message (JObj example_meme)) =
     Some \<lparr>message = JStr ''check this meme'', author = JStr ''alice'',
           timestamp = JStr ''2024-01-01T00:00:00'', category = ''humor'',
           sentiment = Finite (1 / 2), sentiment_category = ''positive'',
           keyword_mentioned = JStr ''meme'', message_length = 15\<rparr>"
  by (simp add: example_meme_def eval_defs)

lemma example_no_keyword_processed:
  "fst (process_message (JObj example_no_keyword)) =
     Some \<lparr>message = JStr ''hi'', author = JStr ''bob'',
           timestamp = JStr ''t'', category = ''unknown'',
           sentiment = Finite (- 1 / 2), sentiment_category = ''negative'',
           keyword_mentioned = JNull, message_length = 2\<rparr>"
  by (simp add: example_no_keyword_def eval_defs)

theorem category_from_keyword_witness:
  "fst (process_message (JObj example_meme)) \<noteq> None \<and>
   map_of example_meme ''keyword_mentioned'' = Some (JStr ''meme'') \<and>
   map_of KEYWORD_CATEGORIES ''meme'' = Some ''humor'' \<and>
   category (the (fst (process_message (JObj example_meme)))) = ''humor'' \<and>
   fst (process_message (JObj example_no_keyword)) \<noteq> None \<and>
   map_of example_no_keyword ''keyword_mentioned'' = None \<and>
   category (the (fst (process_message (JObj example_no_keyword)))) = ''unknown''"
  using category_from_keyword [OF example_meme_processed]
    category_from_keyword [OF example_no_keyword_processed]
  by (simp add: example_meme_processed example_no_keyword_processed)
     (simp add: example_meme_def example_no_keyword_def KEYWORD_CATEGORIES_def)

lemma for_step_skip:
  "c i = Yield v \<Longrightarrow> fst (process_message v) = None \<Longrightarrow>
     for_message_in_consumer c i w l =
     for_message_in_consumer c (Suc i) w (l @ snd (process_message v))"
  by (subst for_message_in_consumer.simps) (cases "process_message v", simp)

lemma for_step_insert:
  "c i = Yield v \<Longrightarrow> process_message v = (Some p, pl) \<Longrightarrow> insert_message p w = (w', None) \<Longrightarrow>
     for_message_in_consumer c i w l = for_message_in_consumer c (Suc i) w' (l @ pl)"
  by (subst for_message_in_consumer.simps) simp

lemma for_step_insert_fails:
  "c i = Yield v \<Longrightarrow> process_message v = (Some p, pl) \<Longrightarrow> insert_message p w = (w', Some e) \<Longrightarrow>
     for_message_in_consumer c i w l = Some (Raised e, w', l @ pl)"
  by (subst for_message_in_consumer.simps) simp

lemma for_step_raise:
  "c i = Raise e \<Longrightarrow> for_message_in_consumer c i w l = Some (Raised e, w, l)"
  by (subst for_message_in_consumer.simps) simp

lemma for_step_stop:
  "c i = Stop \<Longrightarrow> for_message_in_consumer c i w l = Some (Returned, w, l)"
  by (subst for_message_in_consumer.simps) simp

lemma for_step_interrupt:
  "c i = Interrupt \<Longrightarrow> for_message_in_consumer c i w l = Some (Interrupted, w, l)"
  by (subst for_message_in_consumer.simps) simp

text \<open>
  A record whose \<open>keyword_mentioned\<close> is a JSON array: both coercions succeed, and yet
  the lookup in \<^verbatim>\<open>KEYWORD_CATEGORIES\<close> raises TypeError (a list cannot be hashed), which
  the handler catches, so no result is returned.
\<close>

theorem unhashable_keyword_no_result:
  "fst (process_message (JObj unhashable_keyword_record)) = None \<and>
   py_float (dict_get_default unhashable_keyword_record ''sentiment'' (JFloat float_0_0)) =
     Inr (Finite (1 / 2)) \<and>
   py_int (dict_get_default unhashable_keyword_record ''message_length'' (JInt 0)) = Inr 3"
  by (simp add: unhashable_keyword_record_def process_message_fst dict_get_def
      dict_get_default_def)

text \<open>
  C3, as the code has it. For every raw record, \<^verbatim>\<open>process_message\<close> returns either a
  dictionary with all eight fields computed from the record, or \<^verbatim>\<open>None\<close>. It returns
  \<^verbatim>\<open>None\<close> exactly when a statement of the \<^verbatim>\<open>try\<close> block raises: when
  \<open>keyword_mentioned\<close> cannot be hashed (it is a list or a dict), when \<^verbatim>\<open>float\<close> fails
  on \<open>sentiment\<close>, or when \<^verbatim>\<open>int\<close> fails on \<open>message_length\<close>. The loop passes a
  record without a result by: the store it hands to the next pull is the one it had.
\<close>

theorem process_message_atomic:
  "(fst (process_message (JObj kvs)) = None \<longleftrightarrow>
      \<not> hashable (dict_get kvs ''keyword_mentioned'') \<or>
      (\<exists>e. py_float (dict_get_default kvs ''sentiment'' (JFloat float_0_0)) = Inl e) \<or>
      (\<exists>e. py_int (dict_get_default kvs ''message_length'' (JInt 0)) = Inl e)) \<and>
   (\<forall>p. fst (process_message (JObj kvs)) = Some p \<longrightarrow>
      message p = dict_get kvs ''message'' \<and>
      author p = dict_get kvs ''author'' \<and>
      timestamp p = dict_get kvs ''timestamp'' \<and>
      KEYWORD_CATEGORIES_get (dict_get kvs ''keyword_mentioned'') ''unknown'' = Inr (category p) \<and>
      py_float (dict_get_default kvs ''sentiment'' (JFloat float_0_0)) = Inr (sentiment p) \<and>
      sentiment_category p = categorize_sentiment (sentiment p) \<and>
      keyword_mentioned p = dict_get kvs ''keyword_mentioned'' \<and>
      py_int (dict_get_default kvs ''message_length'' (JInt 0)) = Inr (message_length p)) \<and>
   (\<forall>c i w l. c i = Yield (JObj kvs) \<and> fst (process_message (JObj kvs)) = None \<longrightarrow>
      for_message_in_consumer c i w l =
      for_message_in_consumer c (Suc i) w (l @ snd (process_message (JObj kvs))))"
proof -
  have a: "fst (process_message (JObj kvs)) = None \<longleftrightarrow>
      \<not> hashable (dict_get kvs ''keyword_mentioned'') \<or>
      (\<exists>e. py_float (dict_get_default kvs ''sentiment'' (JFloat float_0_0)) = Inl e) \<or>
      (\<exists>e. py_int (dict_get_default kvs ''message_length'' (JInt 0)) = Inl e)"
    using KEYWORD_CATEGORIES_get_hashable [of "dict_get kvs ''keyword_mentioned''" "''unknown''"]
    by (auto simp add: process_message_fst split: sum.splits)
  have b: "\<forall>p. fst (process_message (JObj kvs)) = Some p \<longrightarrow>
      message p = dict_get kvs ''message'' \<and>
      author p = dict_get kvs ''author'' \<and>
      timestamp p = dict_get kvs ''timestamp'' \<and>
      KEYWORD_CATEGORIES_get (dict_get kvs ''keyword_mentioned'') ''unknown'' = Inr (category p) \<and>
      py_float (dict_get_default kvs ''sentiment'' (JFloat float_0_0)) = Inr (sentiment p) \<and>
      sentiment_category p = categorize_sentiment (sentiment p) \<and>
      keyword_mentioned p = dict_get kvs ''keyword_mentioned'' \<and>
      py_int (dict_get_default kvs ''message_length'' (JInt 0)) = Inr (message_length p)"
    by (auto simp add: process_message_fst split: sum.splits)
  have c: "\<forall>c i w l. c i = Yield (JObj kvs) \<and> fst (process_message (JObj kvs)) = None \<longrightarrow>
      for_message_in_consumer c i w l =
      for_message_in_consumer c (Suc i) w (l @ snd (process_message (JObj kvs)))"
    using for_step_skip by blast
  from a b c show ?thesis by blast
qed

lemma float_of_string_abc: "float_of_string ''abc'' = Inl ValueError"
  by (simp add: float_of_string_def strip_def split_sign_def is_space_def lower_def
      float_number_def digitpart_def is_digit_def)

theorem process_message_atomic_witness:
  "fst (process_message (JObj sentiment_abc_record)) = None \<and>
   py_float (dict_get_default sentiment_abc_record ''sentiment'' (JFloat float_0_0)) =
     Inl ValueError \<and>
   for_message_in_consumer (\<lambda>i. if i = 0 then Yield (JObj sentiment_abc_record) else Stop) 0
     \<lparr>medium_ok = True, unlink_ok = True, store_file = Database (Some empty_table)\<rparr> [] =
   Some (Returned,
     \<lparr>medium_ok = True, unlink_ok = True, store_file = Database (Some empty_table)\<rparr>,
     snd (process_message (JObj sentiment_abc_record))) \<and>
   fst (process_message (JObj example_meme)) \<noteq> None \<and>
   message (the (fst (process_message (JObj example_meme)))) = JStr ''check this meme'' \<and>
   message_length (the (fst (process_message (JObj example_meme)))) = 15"
proof -
  let ?c = "\<lambda>i::nat. if i = 0 then Yield (JObj sentiment_abc_record) else Stop"
  let ?w = "\<lparr>medium_ok = True, unlink_ok = True, store_file = Database (Some empty_table)\<rparr>"
  note t1 = process_message_atomic [of sentiment_abc_record]
  note t2 = process_message_atomic [of example_meme]
  have f: "py_float (dict_get_default sentiment_abc_record ''sentiment'' (JFloat float_0_0)) =
     Inl ValueError"
    by (simp add: sentiment_abc_record_def dict_get_default_def float_of_string_abc)
  from t1 f have n: "fst (process_message (JObj sentiment_abc_record)) = None" by blast
  from t1 n have "for_message_in_consumer ?c 0 ?w [] =
      for_message_in_consumer ?c (Suc 0) ?w ([] @ snd (process_message (JObj sentiment_abc_record)))"
    by simp
  then have l: "for_message_in_consumer ?c 0 ?w [] =
      Some (Returned, ?w, snd (process_message (JObj sentiment_abc_record)))"
    by (simp add: for_step_stop)
  from t2 example_meme_processed have
    "message (the (fst (process_message (JObj example_meme)))) = dict_get example_meme ''message''"
    by simp
  then have m: "message (the (fst (process_message (JObj example_meme)))) = JStr ''check this meme''"
    by (simp add: example_meme_def dict_get_def)
  from n f l m show ?thesis by (simp add: example_meme_processed)
qed

text \<open>
  C9. For every raw record in which the key \<open>sentiment\<close> is present with the value
  \<^verbatim>\<open>None\<close>, \<^verbatim>\<open>process_message\<close> returns no result (\<^verbatim>\<open>float(None)\<close> raises), and the loop
  passes the record by with the store as it was. The default \<open>0.0\<close> is the sentiment of
  a processed record only when the key is absent; when the key is present, the sentiment
  is \<^verbatim>\<open>float\<close> of its value.
\<close>

theorem null_sentiment_fails:
  "(map_of kvs ''sentiment'' = Some JNull \<longrightarrow>
      fst (process_message (JObj kvs)) = None \<and>
      (\<forall>c i w l. c i = Yield (JObj kvs) \<longrightarrow>
         for_message_in_consumer c i w l =
         for_message_in_consumer c (Suc i) w (l @ snd (process_message (JObj kvs))))) \<and>
   (\<forall>p. map_of kvs ''sentiment'' = None \<and> fst (process_message (JObj kvs)) = Some p \<longrightarrow>
      sentiment p = Finite 0) \<and>
   (\<forall>p v. map_of kvs ''sentiment'' = Some v \<and> fst (process_message (JObj kvs)) = Some p \<longrightarrow>
      py_float v = Inr (sentiment p))"
proof -
  have a: "fst (process_message (JObj kvs)) = None" if "map_of kvs ''sentiment'' = Some JNull"
    using that by (simp add: process_message_fst dict_get_default_def split: sum.splits)
  have b: "\<forall>p. map_of kvs ''sentiment'' = None \<and> fst (process_message (JObj kvs)) = Some p \<longrightarrow>
      sentiment p = Finite 0"
    by (auto simp add: process_message_fst dict_get_default_def float_0_0_def split: sum.splits)
  have c: "\<forall>p v. map_of kvs ''sentiment'' = Some v \<and> fst (process_message (JObj kvs)) = Some p \<longrightarrow>
      py_float v = Inr (sentiment p)"
    by (auto simp add: process_message_fst dict_get_default_def split: sum.splits)
  from a b c for_step_skip show ?thesis by blast
qed

lemma no_sentiment_processed:
  "fst (process_message (JObj no_sentiment_record)) =
     Some \<lparr>message = JStr ''hi'', author = JNull, timestamp = JNull, category = ''unknown'',
           sentiment = Finite 0, sentiment_category = ''neutral'',
           keyword_mentioned = JNull, message_length = 2\<rparr>"
  by (simp add: no_sentiment_record_def eval_defs)

theorem null_sentiment_fails_witness:
  "map_of null_sentiment_record ''sentiment'' = Some JNull \<and>
   fst (process_message (JObj null_sentiment_record)) = None \<and>
   map_of no_sentiment_record ''sentiment'' = None \<and>
   fst (process_message (JObj no_sentiment_record)) \<noteq> None \<and>
   sentiment (the (fst (process_message (JObj no_sentiment_record)))) = Finite 0 \<and>
   map_of example_meme ''sentiment'' = Some (JFloat (Finite (1 / 2))) \<and>
   fst (process_message (JObj example_meme)) \<noteq> None \<and>
   sentiment (the (fst (process_message (JObj example_meme)))) = Finite (1 / 2)"
proof -
  have h1: "map_of null_sentiment_record ''sentiment'' = Some JNull"
    by (simp add: null_sentiment_record_def)
  have h2: "map_of no_sentiment_record ''sentiment'' = None"
    by (simp add: no_sentiment_record_def)
  have h3: "map_of example_meme ''sentiment'' = Some (JFloat (Finite (1 / 2)))"
    by (simp add: example_meme_def)
  from null_sentiment_fails [of null_sentiment_record] h1
  have r1: "fst (process_message (JObj null_sentiment_record)) = None" by blast
  from null_sentiment_fails [of no_sentiment_record] h2 no_sentiment_processed
  have r2: "sentiment (the (fst (process_message (JObj no_sentiment_record)))) = Finite 0"
    by simp
  from null_sentiment_fails [of example_meme] h3 example_meme_processed
  have "py_float (JFloat (Finite (1 / 2))) =
      Inr (sentiment (the (fst (process_message (JObj example_meme)))))"
    by simp
  then have r3: "sentiment (the (fst (process_message (JObj example_meme)))) = Finite (1 / 2)"
    by simp
  from h1 h2 h3 r1 r2 r3 show ?thesis
    by (simp add: no_sentiment_processed example_meme_processed)
qed

lemma trunc_toward_zero: "\<bar>of_int (trunc q)\<bar> \<le> \<bar>q\<bar> \<and> \<bar>q - of_int (trunc q)\<bar> < 1"
  unfolding trunc_def by (cases "0 \<le> q") (simp_all, linarith+)

lemma in_set_dropWhile: "x \<in> set xs \<Longrightarrow> \<not> P x \<Longrightarrow> x \<in> set (dropWhile P xs)"
  by (induction xs) auto

lemma dot_not_space: "\<not> is_space CHR ''.''"
  by (simp add: is_space_def)

lemma dot_in_strip: "CHR ''.'' \<in> set s \<Longrightarrow> CHR ''.'' \<in> set (strip s)"
  by (simp add: strip_def in_set_dropWhile dot_not_space)

lemma dot_in_split_sign: "CHR ''.'' \<in> set t \<Longrightarrow> CHR ''.'' \<in> set (snd (split_sign t))"
  by (cases t) (auto simp add: split_sign_def)

lemma digits_tail_chars:
  "digits_tail cs = (ds, []) \<Longrightarrow> c \<in> set cs \<Longrightarrow> is_digit c \<or> c = CHR ''_''"
proof (induction cs arbitrary: ds rule: digits_tail.induct)
  case 1
  then show ?case by simp
next
  case (2 x xs)
  then show ?case
    by (auto split: if_splits prod.splits list.splits)
qed

lemma digitpart_chars:
  "digitpart t = Some (ds, []) \<Longrightarrow> c \<in> set t \<Longrightarrow> is_digit c \<or> c = CHR ''_''"
  by (cases t) (auto simp add: digitpart_def split: if_splits prod.splits dest: digits_tail_chars)

lemma int_of_string_dot: "CHR ''.'' \<in> set s \<Longrightarrow> int_of_string s = Inl ValueError"
proof -
  assume d: "CHR ''.'' \<in> set s"
  obtain neg t where st: "split_sign (strip s) = (neg, t)" by (cases "split_sign (strip s)")
  with d have "CHR ''.'' \<in> set t"
    using dot_in_split_sign [OF dot_in_strip [OF d]] by simp
  then have "\<And>ds. digitpart t \<noteq> Some (ds, [])"
    using digitpart_chars [of t _ "CHR ''.''"] by (auto simp add: is_digit_def)
  then show ?thesis
    by (auto simp add: int_of_string_def st split: option.splits list.splits prod.splits)
qed

text \<open>
  A record whose \<open>message_length\<close> is the float 15.7 and whose \<open>sentiment\<close> is the string
  \<^verbatim>\<open>"abc"\<close>: \<^verbatim>\<open>float\<close> raises before \<^verbatim>\<open>int\<close> is reached, and the record has no result.
\<close>

theorem fractional_length_with_bad_sentiment_fails:
  "map_of bad_sentiment_fractional_length_record ''message_length'' =
     Some (JFloat (Finite (4419157134357299 / 281474976710656))) \<and>
   fst (process_message (JObj bad_sentiment_fractional_length_record)) = None"
  by (simp add: bad_sentiment_fractional_length_record_def process_message_fst dict_get_def
      dict_get_default_def float_of_string_abc)

text \<open>
  C10, as the code has it. For every raw record whose \<open>message_length\<close> is a finite float \<open>q\<close>, and which fails
  nowhere else (its keyword can be hashed and its sentiment converts),
  \<^verbatim>\<open>process_message\<close> succeeds and \<open>message_length\<close> is \<open>q\<close> truncated toward zero: the
  integer no larger in magnitude than \<open>q\<close> and less than one away from it. When
  \<open>message_length\<close> is a string with a decimal point, as \<^verbatim>\<open>"15.7"\<close> is, \<^verbatim>\<open>int\<close> raises and
  the whole record fails.
\<close>

theorem message_length_fraction:
  "(\<forall>q. hashable (dict_get kvs ''keyword_mentioned'') \<and>
        (\<exists>f. py_float (dict_get_default kvs ''sentiment'' (JFloat float_0_0)) = Inr f) \<and>
        map_of kvs ''message_length'' = Some (JFloat (Finite q)) \<longrightarrow>
        (\<exists>p. fst (process_message (JObj kvs)) = Some p \<and> message_length p = trunc q \<and>
             \<bar>of_int (trunc q)\<bar> \<le> \<bar>q\<bar> \<and> \<bar>q - of_int (trunc q)\<bar> < 1)) \<and>
   (\<forall>s. map_of kvs ''message_length'' = Some (JStr s) \<and> CHR ''.'' \<in> set s \<longrightarrow>
        fst (process_message (JObj kvs)) = None)"
proof -
  have a: "\<exists>p. fst (process_message (JObj kvs)) = Some p \<and> message_length p = trunc q \<and>
             \<bar>of_int (trunc q)\<bar> \<le> \<bar>q\<bar> \<and> \<bar>q - of_int (trunc q)\<bar> < 1"
    if h: "hashable (dict_get kvs ''keyword_mentioned'')"
      and f: "py_float (dict_get_default kvs ''sentiment'' (JFloat float_0_0)) = Inr f"
      and m: "map_of kvs ''message_length'' = Some (JFloat (Finite q))" for q f
  proof -
    from h obtain cat where
      "KEYWORD_CATEGORIES_get (dict_get kvs ''keyword_mentioned'') ''unknown'' = Inr cat"
      using KEYWORD_CATEGORIES_get_hashable [of "dict_get kvs ''keyword_mentioned''" "''unknown''"]
      by (cases "KEYWORD_CATEGORIES_get (dict_get kvs ''keyword_mentioned'') ''unknown''") auto
    with f m show ?thesis
      by (simp add: process_message_fst dict_get_default_def trunc_toward_zero)
  qed
  have b: "fst (process_message (JObj kvs)) = None"
    if "map_of kvs ''message_length'' = Some (JStr s)" and "CHR ''.'' \<in> set s" for s
    using that
    by (simp add: process_message_fst dict_get_default_def int_of_string_dot split: sum.splits)
  from a b show ?thesis by blast
qed

theorem message_length_fraction_witness:
  "map_of fractional_length_record ''message_length'' =
     Some (JFloat (Finite (4419157134357299 / 281474976710656))) \<and>
   fst (process_message (JObj fractional_length_record)) \<noteq> None \<and>
   message_length (the (fst (process_message (JObj fractional_length_record)))) = 15 \<and>
   map_of fractional_string_length_record ''message_length'' = Some (JStr ''15.7'') \<and>
   CHR ''.'' \<in> set ''15.7'' \<and>
   fst (process_message (JObj fractional_string_length_record)) = None"
proof -
  have h1: "hashable (dict_get fractional_length_record ''keyword_mentioned'')"
    by (simp add: fractional_length_record_def dict_get_def)
  have h2: "py_float (dict_get_default fractional_length_record ''sentiment'' (JFloat float_0_0)) =
      Inr (Finite (1 / 2))"
    by (simp add: fractional_length_record_def dict_get_default_def)
  have h3: "map_of fractional_length_record ''message_length'' =
     Some (JFloat (Finite (4419157134357299 / 281474976710656)))"
    by (simp add: fractional_length_record_def)
  have t: "trunc (4419157134357299 / 281474976710656) = 15"
    by (simp add: trunc_def floor_eq_iff)
  from message_length_fraction [of fractional_length_record] h1 h2 h3
  obtain p where "fst (process_message (JObj fractional_length_record)) = Some p"
    and "message_length p = trunc (4419157134357299 / 281474976710656)"
    by blast
  with t have r1: "fst (process_message (JObj fractional_length_record)) \<noteq> None \<and>
      message_length (the (fst (process_message (JObj fractional_length_record)))) = 15"
    by simp
  have h4: "map_of fractional_string_length_record ''message_length'' = Some (JStr ''15.7'')"
    by (simp add: fractional_string_length_record_def)
  have h5: "CHR ''.'' \<in> set ''15.7''" by simp
  from message_length_fraction [of fractional_string_length_record] h4 h5
  have r2: "fst (process_message (JObj fractional_string_length_record)) = None" by blast
  from h3 r1 h4 h5 r2 show ?thesis by blast
qed

section \<open>Properties of the ingestion loop\<close>

text \<open>
  Induction over a run of the loop that returns: one case for each way an iteration ends
  or goes on.
\<close>

lemma for_induct [consumes 1, case_names Stop Raise Interrupt Skip Insert InsertFails]:
  assumes run: "for_message_in_consumer c i w l = Some r"
    and Stop: "\<And>i w l. c i = Stop \<Longrightarrow> P i w l (Returned, w, l)"
    and Raise: "\<And>i w l e. c i = Raise e \<Longrightarrow> P i w l (Raised e, w, l)"
    and Interrupt: "\<And>i w l. c i = Interrupt \<Longrightarrow> P i w l (Interrupted, w, l)"
    and Skip: "\<And>i w l v pl r. c i = Yield v \<Longrightarrow> process_message v = (None, pl) \<Longrightarrow>
        for_message_in_consumer c (Suc i) w (l @ pl) = Some r \<Longrightarrow>
        P (Suc i) w (l @ pl) r \<Longrightarrow> P i w l r"
    and Insert: "\<And>i w l v p pl w' r. c i = Yield v \<Longrightarrow> process_message v = (Some p, pl) \<Longrightarrow>
        insert_message p w = (w', None) \<Longrightarrow>
        for_message_in_consumer c (Suc i) w' (l @ pl) = Some r \<Longrightarrow>
        P (Suc i) w' (l @ pl) r \<Longrightarrow> P i w l r"
    and InsertFails: "\<And>i w l v p pl w' e. c i = Yield v \<Longrightarrow>
        process_message v = (Some p, pl) \<Longrightarrow> insert_message p w = (w', Some e) \<Longrightarrow>
        P i w l (Raised e, w', l @ pl)"
  shows "P i w l r"
proof -
  let ?Q = "\<lambda>c' i w l r. c' = c \<longrightarrow> for_message_in_consumer c i w l = Some r \<and> P i w l r"
  have "?Q c i w l r"
  proof (rule for_message_in_consumer.raw_induct [where P = ?Q, OF _ run], goal_cases)
    case (1 f c' i w l r)
    show ?case
    proof
      assume eq: "c' = c"
      show "for_message_in_consumer c i w l = Some r \<and> P i w l r"
      proof (cases "c i")
        case Stop': Stop
        with 1(2) eq have "r = (Returned, w, l)" by simp
        with Stop' Stop [of i w l] show ?thesis by (simp add: for_step_stop)
      next
        case Raise': (Raise e)
        with 1(2) eq have "r = (Raised e, w, l)" by simp
        with Raise' Raise [of i e w l] show ?thesis by (simp add: for_step_raise)
      next
        case Interrupt': Interrupt
        with 1(2) eq have "r = (Interrupted, w, l)" by simp
        with Interrupt' Interrupt [of i w l] show ?thesis by (simp add: for_step_interrupt)
      next
        case Yield': (Yield v)
        obtain res pl where pm: "process_message v = (res, pl)" by (cases "process_message v")
        show ?thesis
        proof (cases res)
          case None
          with 1(2) eq Yield' pm have "f c (Suc i) w (l @ pl) = Some r" by simp
          from 1(1) [OF this] eq
          have ih: "for_message_in_consumer c (Suc i) w (l @ pl) = Some r"
            "P (Suc i) w (l @ pl) r" by simp_all
          from for_step_skip [of c i v w l] Yield' pm None ih(1)
          have "for_message_in_consumer c i w l = Some r" by simp
          moreover from Skip [OF Yield' _ ih] pm None have "P i w l r" by simp
          ultimately show ?thesis by simp
        next
          case (Some p)
          obtain w' err where im: "insert_message p w = (w', err)" by (cases "insert_message p w")
          show ?thesis
          proof (cases err)
            case None
            with 1(2) eq Yield' pm Some im have "f c (Suc i) w' (l @ pl) = Some r" by simp
            from 1(1) [OF this] eq
            have ih: "for_message_in_consumer c (Suc i) w' (l @ pl) = Some r"
              "P (Suc i) w' (l @ pl) r" by simp_all
            from pm Some have pm': "process_message v = (Some p, pl)" by simp
            from im None have im': "insert_message p w = (w', None)" by simp
            from for_step_insert [of c i v p pl w w' l] Yield' pm' im' ih(1)
            have "for_message_in_consumer c i w l = Some r" by simp
            moreover from Insert [OF Yield' pm' im' ih] have "P i w l r" .
            ultimately show ?thesis by simp
          next
            case (Some e)
            from pm \<open>res = Some p\<close> have pm': "process_message v = (Some p, pl)" by simp
            from im Some have im': "insert_message p w = (w', Some e)" by simp
            from 1(2) eq Yield' pm' im' have r: "r = (Raised e, w', l @ pl)" by simp
            from for_step_insert_fails [of c i v p pl w w' e l] Yield' pm' im' r
            have "for_message_in_consumer c i w l = Some r" by simp
            moreover from InsertFails [OF Yield' pm' im', of l] r have "P i w l r" by simp
            ultimately show ?thesis by simp
          qed
        qed
      qed
    qed
  qed
  then show ?thesis by simp
qed

lemma for_log_prefix:
  assumes "for_message_in_consumer c i w l = Some (out, w', l')"
  shows "\<exists>t. l' = l @ t \<and> (\<forall>l2. for_message_in_consumer c i w l2 = Some (out, w', l2 @ t))"
proof -
  have "\<exists>t. snd (snd r) = l @ t \<and>
          (\<forall>l2. for_message_in_consumer c i w l2 = Some (fst r, fst (snd r), l2 @ t))"
    if "for_message_in_consumer c i w l = Some r" for r
    using that
  proof (induction rule: for_induct)
    case (Stop i w l)
    then show ?case by (simp add: for_step_stop)
  next
    case (Raise i w l e)
    then show ?case by (simp add: for_step_raise)
  next
    case (Interrupt i w l)
    then show ?case by (simp add: for_step_interrupt)
  next
    case (Skip i w l v pl r)
    then obtain t where t: "snd (snd r) = (l @ pl) @ t"
      "\<And>l2. for_message_in_consumer c (Suc i) w l2 = Some (fst r, fst (snd r), l2 @ t)"
      by blast
    from Skip(1,2) have s: "\<And>l2. for_message_in_consumer c i w l2 =
        for_message_in_consumer c (Suc i) w (l2 @ pl)"
      using for_step_skip [of c i v] by simp
    show ?case
      by (rule exI [of _ "pl @ t"]) (simp add: t s)
  next
    case (Insert i w l v p pl w' r)
    then obtain t where t: "snd (snd r) = (l @ pl) @ t"
      "\<And>l2. for_message_in_consumer c (Suc i) w' l2 = Some (fst r, fst (snd r), l2 @ t)"
      by blast
    from Insert(1,2,3) have s: "\<And>l2. for_message_in_consumer c i w l2 =
        for_message_in_consumer c (Suc i) w' (l2 @ pl)"
      using for_step_insert [of c i v p pl w w'] by simp
    show ?case
      by (rule exI [of _ "pl @ t"]) (simp add: t s)
  next
    case (InsertFails i w l v p pl w' e)
    then show ?case
      using for_step_insert_fails [of c i v p pl w w' e] by simp
  qed
  from this [OF assms] show ?thesis by simp
qed

lemma skip_at_after: "i \<le> j \<Longrightarrow> skip_at i c j = c (Suc j)"
  by (simp add: skip_at_def)

lemma skip_at_before: "j < i \<Longrightarrow> skip_at i c j = c j"
  by (simp add: skip_at_def)

lemma for_skip_at_shift:
  assumes "for_message_in_consumer (skip_at i c) j w l = Some r" and "i \<le> j"
  shows "for_message_in_consumer c (Suc j) w l = Some r"
  using assms
proof (induction rule: for_induct)
  case (Stop j w l)
  then show ?case by (simp add: skip_at_after for_step_stop)
next
  case (Raise j w l e)
  then show ?case by (simp add: skip_at_after for_step_raise)
next
  case (Interrupt j w l)
  then show ?case by (simp add: skip_at_after for_step_interrupt)
next
  case (Skip j w l v pl r)
  then show ?case
    using for_step_skip [of c "Suc j" v w l] by (simp add: skip_at_after)
next
  case (Insert j w l v p pl w' r)
  then show ?case
    using for_step_insert [of c "Suc j" v p pl w w' l] by (simp add: skip_at_after)
next
  case (InsertFails j w l v p pl w' e)
  then show ?case
    using for_step_insert_fails [of c "Suc j" v p pl w w' e l] by (simp add: skip_at_after)
qed

lemma for_shift_skip_at:
  assumes "for_message_in_consumer c k w l = Some r"
  shows "\<forall>j. k = Suc j \<and> i \<le> j \<longrightarrow> for_message_in_consumer (skip_at i c) j w l = Some r"
  using assms
proof (induction rule: for_induct)
  case (Stop k w l)
  then show ?case by (auto simp add: skip_at_after for_step_stop)
next
  case (Raise k w l e)
  then show ?case by (auto simp add: skip_at_after for_step_raise)
next
  case (Interrupt k w l)
  then show ?case by (auto simp add: skip_at_after for_step_interrupt)
next
  case (Skip k w l v pl r)
  show ?case
  proof (intro allI impI)
    fix j assume j: "k = Suc j \<and> i \<le> j"
    with Skip(4) have "for_message_in_consumer (skip_at i c) (Suc j) w (l @ pl) = Some r" by simp
    with Skip(1,2) j show "for_message_in_consumer (skip_at i c) j w l = Some r"
      using for_step_skip [of "skip_at i c" j v w l] by (simp add: skip_at_after)
  qed
next
  case (Insert k w l v p pl w' r)
  show ?case
  proof (intro allI impI)
    fix j assume j: "k = Suc j \<and> i \<le> j"
    with Insert(5) have "for_message_in_consumer (skip_at i c) (Suc j) w' (l @ pl) = Some r"
      by simp
    with Insert(1,2,3) j show "for_message_in_consumer (skip_at i c) j w l = Some r"
      using for_step_insert [of "skip_at i c" j v p pl w w' l] by (simp add: skip_at_after)
  qed
next
  case (InsertFails k w l v p pl w' e)
  then show ?case
    using for_step_insert_fails [of "skip_at i c" _ v p pl w w' e l]
    by (auto simp add: skip_at_after)
qed

lemma for_skip_forward:
  assumes bad: "c i = Yield v" "fst (process_message v) = None"
    and run: "for_message_in_consumer c j w l = Some r"
  shows "j \<le> i \<longrightarrow>
     (\<forall>l2. \<exists>l3. for_message_in_consumer (skip_at i c) j w l2 = Some (fst r, fst (snd r), l3))"
  using run
proof (induction rule: for_induct)
  case (Stop j w l)
  with bad show ?case by (auto simp add: skip_at_before for_step_stop le_less)
next
  case (Raise j w l e)
  with bad show ?case by (auto simp add: skip_at_before for_step_raise le_less)
next
  case (Interrupt j w l)
  with bad show ?case by (auto simp add: skip_at_before for_step_interrupt le_less)
next
  case (Skip j w l v' pl r)
  show ?case
  proof (intro impI allI)
    fix l2 assume le: "j \<le> i"
    show "\<exists>l3. for_message_in_consumer (skip_at i c) j w l2 = Some (fst r, fst (snd r), l3)"
    proof (cases "j < i")
      case True
      with Skip(4) obtain l3 where
        "for_message_in_consumer (skip_at i c) (Suc j) w (l2 @ pl) = Some (fst r, fst (snd r), l3)"
        by auto
      with True Skip(1,2) show ?thesis
        using for_step_skip [of "skip_at i c" j v' w l2] by (simp add: skip_at_before)
    next
      case False
      with le have ji: "j = i" by simp
      from Skip(3) have "for_message_in_consumer c (Suc i) w (l @ pl) = Some r" by (simp add: ji)
      from for_shift_skip_at [OF this, of i]
      have "for_message_in_consumer (skip_at i c) i w (l @ pl) = Some (fst r, fst (snd r), snd (snd r))"
        by simp
      from for_log_prefix [OF this] show ?thesis by (auto simp add: ji)
    qed
  qed
next
  case (Insert j w l v' p pl w' r)
  show ?case
  proof (intro impI allI)
    fix l2 assume le: "j \<le> i"
    from Insert(1,2) bad have "j \<noteq> i" by auto
    with le have lt: "j < i" by simp
    with Insert(5) obtain l3 where
      "for_message_in_consumer (skip_at i c) (Suc j) w' (l2 @ pl) = Some (fst r, fst (snd r), l3)"
      by auto
    with lt Insert(1,2,3)
    show "\<exists>l3. for_message_in_consumer (skip_at i c) j w l2 = Some (fst r, fst (snd r), l3)"
      using for_step_insert [of "skip_at i c" j v' p pl w w' l2] by (simp add: skip_at_before)
  qed
next
  case (InsertFails j w l v' p pl w' e)
  show ?case
  proof (intro impI allI)
    fix l2 assume le: "j \<le> i"
    from InsertFails(1,2) bad have "j \<noteq> i" by auto
    with le have lt: "j < i" by simp
    with InsertFails
    show "\<exists>l3. for_message_in_consumer (skip_at i c) j w l2 =
        Some (fst (Raised e, w', l @ pl), fst (snd (Raised e, w', l @ pl)), l3)"
      using for_step_insert_fails [of "skip_at i c" j v' p pl w w' e l2]
      by (simp add: skip_at_before)
  qed
qed

lemma for_skip_backward_at:
  assumes bad: "c i = Yield v" "fst (process_message v) = None"
    and run: "for_message_in_consumer (skip_at i c) i w l = Some r"
  shows "\<exists>l3. for_message_in_consumer c i w l2 = Some (fst r, fst (snd r), l3)"
proof -
  from for_skip_at_shift [OF run order_refl]
  have "for_message_in_consumer c (Suc i) w l = Some (fst r, fst (snd r), snd (snd r))"
    by simp
  from for_log_prefix [OF this] bad show ?thesis
    using for_step_skip [of c i v w l2] by auto
qed

lemma for_skip_backward:
  assumes bad: "c i = Yield v" "fst (process_message v) = None"
    and run: "for_message_in_consumer (skip_at i c) j w l = Some r"
  shows "for_message_in_consumer (skip_at i c) j w l = Some r \<longrightarrow> j \<le> i \<longrightarrow>
     (\<forall>l2. \<exists>l3. for_message_in_consumer c j w l2 = Some (fst r, fst (snd r), l3))"
  using run
proof (induction rule: for_induct)
  case (Stop j w l)
  show ?case
  proof (intro impI allI)
    fix l2 assume r: "for_message_in_consumer (skip_at i c) j w l = Some (Returned, w, l)"
      and le: "j \<le> i"
    show "\<exists>l3. for_message_in_consumer c j w l2 =
        Some (fst (Returned, w, l), fst (snd (Returned, w, l)), l3)"
    proof (cases "j < i")
      case True
      with Stop show ?thesis by (simp add: skip_at_before for_step_stop)
    next
      case False
      with le r bad show ?thesis using for_skip_backward_at [of c i v w l _ l2] by simp
    qed
  qed
next
  case (Raise j w l e)
  show ?case
  proof (intro impI allI)
    fix l2 assume r: "for_message_in_consumer (skip_at i c) j w l = Some (Raised e, w, l)"
      and le: "j \<le> i"
    show "\<exists>l3. for_message_in_consumer c j w l2 =
        Some (fst (Raised e, w, l), fst (snd (Raised e, w, l)), l3)"
    proof (cases "j < i")
      case True
      with Raise show ?thesis by (simp add: skip_at_before for_step_raise)
    next
      case False
      with le r bad show ?thesis using for_skip_backward_at [of c i v w l _ l2] by simp
    qed
  qed
next
  case (Interrupt j w l)
  show ?case
  proof (intro impI allI)
    fix l2 assume r: "for_message_in_consumer (skip_at i c) j w l = Some (Interrupted, w, l)"
      and le: "j \<le> i"
    show "\<exists>l3. for_message_in_consumer c j w l2 =
        Some (fst (Interrupted, w, l), fst (snd (Interrupted, w, l)), l3)"
    proof (cases "j < i")
      case True
      with Interrupt show ?thesis by (simp add: skip_at_before for_step_interrupt)
    next
      case False
      with le r bad show ?thesis using for_skip_backward_at [of c i v w l _ l2] by simp
    qed
  qed
next
  case (Skip j w l v' pl r)
  show ?case
  proof (intro impI allI)
    fix l2 assume r: "for_message_in_consumer (skip_at i c) j w l = Some r" and le: "j \<le> i"
    show "\<exists>l3. for_message_in_consumer c j w l2 = Some (fst r, fst (snd r), l3)"
    proof (cases "j < i")
      case True
      with Skip(3,4) obtain l3 where
        "for_message_in_consumer c (Suc j) w (l2 @ pl) = Some (fst r, fst (snd r), l3)"
        by auto
      with True Skip(1,2) show ?thesis
        using for_step_skip [of c j v' w l2] by (simp add: skip_at_before)
    next
      case False
      with le r bad show ?thesis using for_skip_backward_at [of c i v w l r l2] by simp
    qed
  qed
next
  case (Insert j w l v' p pl w' r)
  show ?case
  proof (intro impI allI)
    fix l2 assume r: "for_message_in_consumer (skip_at i c) j w l = Some r" and le: "j \<le> i"
    show "\<exists>l3. for_message_in_consumer c j w l2 = Some (fst r, fst (snd r), l3)"
    proof (cases "j < i")
      case True
      with Insert(4,5) obtain l3 where
        "for_message_in_consumer c (Suc j) w' (l2 @ pl) = Some (fst r, fst (snd r), l3)"
        by auto
      with True Insert(1,2,3) show ?thesis
        using for_step_insert [of c j v' p pl w w' l2] by (simp add: skip_at_before)
    next
      case False
      with le r bad show ?thesis using for_skip_backward_at [of c i v w l r l2] by simp
    qed
  qed
next
  case (InsertFails j w l v' p pl w' e)
  show ?case
  proof (intro impI allI)
    fix l2
    assume r: "for_message_in_consumer (skip_at i c) j w l = Some (Raised e, w', l @ pl)"
      and le: "j \<le> i"
    show "\<exists>l3. for_message_in_consumer c j w l2 =
        Some (fst (Raised e, w', l @ pl), fst (snd (Raised e, w', l @ pl)), l3)"
    proof (cases "j < i")
      case True
      with InsertFails show ?thesis
        using for_step_insert_fails [of c j v' p pl w w' e l2] by (simp add: skip_at_before)
    next
      case False
      with le r bad show ?thesis using for_skip_backward_at [of c i v w l _ l2] by simp
    qed
  qed
qed

lemma drop_log_eq:
  assumes "\<And>r. a = Some r \<Longrightarrow> \<exists>l3. b = Some (fst r, fst (snd r), l3)"
    and "\<And>r. b = Some r \<Longrightarrow> \<exists>l3. a = Some (fst r, fst (snd r), l3)"
  shows "drop_log a = drop_log b"
proof (cases a)
  case None
  with assms(2) have "b = None" by (cases b) auto
  with None show ?thesis by simp
next
  case (Some r)
  with assms(1) obtain l3 where "b = Some (fst r, fst (snd r), l3)" by blast
  with Some show ?thesis by (simp add: drop_log_def split: prod.splits)
qed

lemma for_skip_drop_log:
  assumes "c i = Yield v" and "fst (process_message v) = None"
  shows "drop_log (for_message_in_consumer c 0 w l) =
         drop_log (for_message_in_consumer (skip_at i c) 0 w l)"
proof (rule drop_log_eq)
  fix r assume "for_message_in_consumer c 0 w l = Some r"
  from for_skip_forward [of c i v 0 w l r] assms this
  show "\<exists>l3. for_message_in_consumer (skip_at i c) 0 w l = Some (fst r, fst (snd r), l3)"
    by simp
next
  fix r assume "for_message_in_consumer (skip_at i c) 0 w l = Some r"
  from for_skip_backward [of c i v 0 w l r] assms this
  show "\<exists>l3. for_message_in_consumer c 0 w l = Some (fst r, fst (snd r), l3)"
    by simp
qed

lemma drop_log_consume_try:
  "drop_log (for_message_in_consumer c 0 w l) = drop_log (for_message_in_consumer c' 0 w l) \<Longrightarrow>
   drop_log (consume_try c w l) = drop_log (consume_try c' w l)"
  by (cases "for_message_in_consumer c 0 w l"; cases "for_message_in_consumer c' 0 w l")
     (auto simp add: drop_log_def consume_try_def split: outcome.splits)

text \<open>
  C4. For every sequence of incoming events, a record at position \<open>i\<close> on which
  \<^verbatim>\<open>process_message\<close> returns no result is only skipped: the loop goes on to pull
  \<open>i + 1\<close> with the store it had, and the whole loop, and the \<^verbatim>\<open>try\<close> statement around
  it, end in the same way and with the same store as on the stream from which that
  record is removed. So the failure never leaves the loop and never ends it; the logs
  differ by the records written for the skipped message.
\<close>

theorem bad_record_only_skipped:
  assumes "c i = Yield v" and "fst (process_message v) = None"
  shows "for_message_in_consumer c i w l =
           for_message_in_consumer c (Suc i) w (l @ snd (process_message v)) \<and>
         drop_log (for_message_in_consumer c 0 w l) =
           drop_log (for_message_in_consumer (skip_at i c) 0 w l) \<and>
         drop_log (consume_try c w l) = drop_log (consume_try (skip_at i c) w l)"
  using for_step_skip [of c i v w l] for_skip_drop_log [of c i v w l]
    drop_log_consume_try [of c w l "skip_at i c"] assms
  by simp

lemma sentiment_abc_fails: "fst (process_message (JObj sentiment_abc_record)) = None"
  by (simp add: sentiment_abc_record_def process_message_fst dict_get_def dict_get_default_def
      float_of_string_abc)

lemma three_records_run:
  "map_option (\<lambda>(out, w, l). (out, map col_message (stored_rows w)))
     (for_message_in_consumer three_records 0 fresh_world []) =
   Some (Returned, [SqlText ''check this meme'', SqlText ''hi''])"
proof -
  have c0: "three_records 0 = Yield (JObj example_meme)"
    and c1: "three_records (Suc 0) = Yield (JObj sentiment_abc_record)"
    and c2: "three_records (Suc (Suc 0)) = Yield (JObj example_no_keyword)"
    and c3: "three_records (Suc (Suc (Suc 0))) = Stop"
    by (simp_all add: three_records_def consumer_of_def)
  show ?thesis
    apply (subst for_message_in_consumer.simps)
    apply (simp add: c0 case_prod_beta example_meme_processed fresh_world_def
        insert_message_def insert_params_def)
    apply (subst for_message_in_consumer.simps)
    apply (simp add: c1 case_prod_beta sentiment_abc_fails)
    apply (subst for_message_in_consumer.simps)
    apply (simp add: c2 case_prod_beta example_no_keyword_processed insert_message_def
        insert_params_def)
    apply (subst for_message_in_consumer.simps)
    apply (simp add: c3 stored_rows_def append_row_def empty_table_def)
    done
qed

theorem bad_record_only_skipped_witness:
  "three_records 1 = Yield (JObj sentiment_abc_record) \<and>
   fst (process_message (JObj sentiment_abc_record)) = None \<and>
   drop_log (for_message_in_consumer three_records 0 fresh_world []) =
     drop_log (for_message_in_consumer (skip_at 1 three_records) 0 fresh_world []) \<and>
   map_option (\<lambda>(out, w). (out, map col_message (stored_rows w)))
     (drop_log (for_message_in_consumer three_records 0 fresh_world [])) =
     Some (Returned, [SqlText ''check this meme'', SqlText ''hi''])"
proof -
  have h1: "three_records 1 = Yield (JObj sentiment_abc_record)"
    by (simp add: three_records_def consumer_of_def)
  note t = bad_record_only_skipped [of three_records 1 "JObj sentiment_abc_record" fresh_world "[]",
      OF h1 sentiment_abc_fails]
  have "map_option (\<lambda>(out, w). (out, map col_message (stored_rows w)))
     (drop_log (for_message_in_consumer three_records 0 fresh_world [])) =
     map_option (\<lambda>(out, w, l). (out, map col_message (stored_rows w)))
     (for_message_in_consumer three_records 0 fresh_world [])"
    by (cases "for_message_in_consumer three_records 0 fresh_world []")
       (auto simp add: drop_log_def)
  with three_records_run h1 sentiment_abc_fails t show ?thesis by simp
qed

section \<open>Properties of the process\<close>

lemma example_meme_log:
  "snd (process_message (JObj example_meme)) =
     [(INFO, ''Called process_message() with:''), (INFO, ''message=''),
      (INFO, ''Alert: Detected category for keyword''), (INFO, ''Processed message'')]"
  by (simp add: example_meme_def process_message_def process_message_try_def dict_get_def
      dict_get_default_def KEYWORD_CATEGORIES_def keyword_alert_def float_0_0_def)

text \<open>
  A store whose table is missing and a stream of two good records: the first insert raises
  OperationalError, the handler around the loop logs it and raises it again, and the
  second record is never pulled.
\<close>

theorem insert_failure_stops_consumption:
  "two_records 1 = Yield (JObj example_no_keyword) \<and>
   consume_try two_records no_table_world [] =
     Some (Raised OperationalError, no_table_world,
       [(INFO, ''Called process_message() with:''), (INFO, ''message=''),
        (INFO, ''Alert: Detected category for keyword''), (INFO, ''Processed message''),
        (ERROR, ''ERROR: Could not consume messages from Kafka'')])"
proof -
  have c0: "two_records 0 = Yield (JObj example_meme)"
    and c1: "two_records 1 = Yield (JObj example_no_keyword)"
    by (simp_all add: two_records_def consumer_of_def)
  have "for_message_in_consumer two_records 0 no_table_world [] =
      Some (Raised OperationalError, no_table_world, snd (process_message (JObj example_meme)))"
    apply (subst for_message_in_consumer.simps)
    apply (simp add: c0 case_prod_beta example_meme_processed no_table_world_def
        insert_message_def)
    done
  with c1 show ?thesis by (simp add: consume_try_def example_meme_log)
qed

text \<open>
  C5, as the code has it. \<^verbatim>\<open>insert_message\<close> has no handler and the loop body has none:
  for every record whose insert fails, the loop ends at that record with the exception,
  whatever the stream holds after it; the \<^verbatim>\<open>try\<close> statement around the loop logs the
  error and raises it again to the caller.
\<close>

theorem insert_failure_halts_loop:
  assumes "c i = Yield v" and "process_message v = (Some p, pl)"
    and "insert_message p w = (w', Some e)"
  shows "for_message_in_consumer c i w l = Some (Raised e, w', l @ pl) \<and>
         (\<forall>w0 l0. for_message_in_consumer c 0 w0 l0 = for_message_in_consumer c i w l \<longrightarrow>
            consume_try c w0 l0 =
              Some (Raised e, w', l @ pl @ [(ERROR, ''ERROR: Could not consume messages from Kafka'')]))"
  using for_step_insert_fails [of c i v p pl w w' e l] assms
  by (simp add: consume_try_def)

theorem insert_failure_halts_loop_witness:
  "two_records 0 = Yield (JObj example_meme) \<and>
   fst (process_message (JObj example_meme)) \<noteq> None \<and>
   insert_message (the (fst (process_message (JObj example_meme)))) no_table_world =
     (no_table_world, Some OperationalError) \<and>
   for_message_in_consumer two_records 0 no_table_world [] =
     Some (Raised OperationalError, no_table_world, snd (process_message (JObj example_meme))) \<and>
   consume_try two_records no_table_world [] =
     Some (Raised OperationalError, no_table_world,
       snd (process_message (JObj example_meme)) @
       [(ERROR, ''ERROR: Could not consume messages from Kafka'')])"
proof -
  have c0: "two_records 0 = Yield (JObj example_meme)"
    by (simp add: two_records_def consumer_of_def)
  have pm: "process_message (JObj example_meme) =
      (Some (the (fst (process_message (JObj example_meme)))), snd (process_message (JObj example_meme)))"
    by (simp add: example_meme_processed prod_eq_iff)
  have im: "insert_message (the (fst (process_message (JObj example_meme)))) no_table_world =
     (no_table_world, Some OperationalError)"
    by (simp add: insert_message_def no_table_world_def)
  from insert_failure_halts_loop [of two_records 0 "JObj example_meme" _ _ no_table_world
      no_table_world OperationalError "[]", OF c0 pm im] c0 im
  show ?thesis by (simp add: example_meme_processed)
qed

text \<open>
  A consumer that raises on the first pull, with every service up: \<^verbatim>\<open>main\<close> catches
  the exception, logs it and returns, and the process ends with status 0.
\<close>

theorem stream_error_exit_status_0:
  "failing_stream 0 = Raise KafkaError \<and>
   map_option (\<lambda>(e, w, l). exit_code e) (main (services_up failing_stream) fresh_world) = Some 0"
proof -
  have c0: "failing_stream 0 = Raise KafkaError"
    by (simp add: failing_stream_def consumer_of_def)
  have "for_message_in_consumer failing_stream 0 w l = Some (Raised KafkaError, w, l)" for w l
    using for_step_raise [of failing_stream 0 KafkaError w l] c0 by simp
  then show ?thesis
    by (simp add: c0 main_def services_up_def fresh_world_def bootstrap_store_def
        delete_prior_file_def init_db_def consume_messages_from_kafka_def consume_try_def Let_def)
qed

text \<open>
  C8, as the code has it. For every exception the consumer raises at a pull, the loop
  ends with it; the handler in \<^verbatim>\<open>consume_messages_from_kafka\<close> logs it and raises it again
  to the caller; \<^verbatim>\<open>main\<close> catches it, logs \<^verbatim>\<open>Unexpected error\<close> and the shutdown, and
  returns, so the process ends with status 0.
\<close>

theorem stream_error_propagates:
  "(c i = Raise e \<longrightarrow> for_message_in_consumer c i w l = Some (Raised e, w, l)) \<and>
   (for_message_in_consumer c 0 w l = Some (Raised e, w', l') \<longrightarrow>
      consume_try c w l =
        Some (Raised e, w', l' @ [(ERROR, ''ERROR: Could not consume messages from Kafka'')])) \<and>
   (verify_services ev = None \<and> create_kafka_consumer ev = Inr (Some c) \<and>
    is_topic_available ev = None \<longrightarrow>
      (\<exists>l. consume_messages_from_kafka ev w = consume_try c w l)) \<and>
   (read_config ev = None \<and> fst (bootstrap_store w0) = Inr w2 \<and>
    consume_messages_from_kafka ev w2 = Some (Raised e, w3, l4) \<longrightarrow>
      (\<exists>lg. main ev w0 =
         Some (Finished, w3,
           lg @ [(ERROR, ''Unexpected error''), (INFO, ''Consumer shutting down.'')])) \<and>
      map_option (\<lambda>(x, w, l). exit_code x) (main ev w0) = Some 0)"
proof -
  have a: "c i = Raise e \<longrightarrow> for_message_in_consumer c i w l = Some (Raised e, w, l)"
    using for_step_raise [of c i e w l] by simp
  have b: "for_message_in_consumer c 0 w l = Some (Raised e, w', l') \<longrightarrow>
      consume_try c w l =
        Some (Raised e, w', l' @ [(ERROR, ''ERROR: Could not consume messages from Kafka'')])"
    by (simp add: consume_try_def)
  have c: "verify_services ev = None \<and> create_kafka_consumer ev = Inr (Some c) \<and>
    is_topic_available ev = None \<longrightarrow>
      (\<exists>l. consume_messages_from_kafka ev w = consume_try c w l)"
    by (auto simp add: consume_messages_from_kafka_def Let_def)
  have d: "(\<exists>lg. main ev w0 =
         Some (Finished, w3,
           lg @ [(ERROR, ''Unexpected error''), (INFO, ''Consumer shutting down.'')])) \<and>
      map_option (\<lambda>(x, w, l). exit_code x) (main ev w0) = Some 0"
    if h1: "read_config ev = None" and h2: "fst (bootstrap_store w0) = Inr w2"
      and h3: "consume_messages_from_kafka ev w2 = Some (Raised e, w3, l4)"
  proof -
    obtain lb where "bootstrap_store w0 = (Inr w2, lb)"
      using h2 by (cases "bootstrap_store w0") simp
    with h1 h3 have m: "main ev w0 = Some (Finished, w3,
        ([(INFO, ''Starting Consumer to run continuously.''),
          (INFO, ''Moved .env variables into a utils config module.''),
          (INFO, ''STEP 1. Read environment variables using new config functions.''),
          (INFO, ''SUCCESS: Read environment variables.'')] @ lb @
         [(INFO, ''STEP 4. Begin consuming and storing messages.'')] @ l4) @
        [(ERROR, ''Unexpected error''), (INFO, ''Consumer shutting down.'')])"
      by (simp add: main_def Let_def)
    have "map_option (\<lambda>(x, w, l). exit_code x) (main ev w0) = Some 0"
      by (simp add: m)
    with m show ?thesis by blast
  qed
  from a b c d show ?thesis by blast
qed

theorem stream_error_propagates_witness:
  "failing_stream 0 = Raise KafkaError \<and>
   for_message_in_consumer failing_stream 0 fresh_world [] =
     Some (Raised KafkaError, fresh_world, []) \<and>
   consume_try failing_stream fresh_world [] =
     Some (Raised KafkaError, fresh_world,
       [(ERROR, ''ERROR: Could not consume messages from Kafka'')]) \<and>
   read_config (services_up failing_stream) = None \<and>
   fst (bootstrap_store fresh_world) = Inr fresh_world \<and>
   (\<exists>l4. consume_messages_from_kafka (services_up failing_stream) fresh_world =
      Some (Raised KafkaError, fresh_world, l4)) \<and>
   map_option (\<lambda>(x, w, l). exit_code x) (main (services_up failing_stream) fresh_world) = Some 0"
proof -
  have c0: "failing_stream 0 = Raise KafkaError"
    by (simp add: failing_stream_def consumer_of_def)
  have ev: "read_config (services_up failing_stream) = None"
    "verify_services (services_up failing_stream) = None"
    "create_kafka_consumer (services_up failing_stream) = Inr (Some failing_stream)"
    "is_topic_available (services_up failing_stream) = None"
    by (simp_all add: services_up_def)
  have bs: "fst (bootstrap_store fresh_world) = Inr fresh_world"
    by (simp add: bootstrap_store_def delete_prior_file_def init_db_def fresh_world_def)
  have run: "for_message_in_consumer failing_stream 0 fresh_world l =
      Some (Raised KafkaError, fresh_world, l)" for l
    using stream_error_propagates [where c = failing_stream and i = 0 and e = KafkaError
        and w = fresh_world and l = l] c0
    by simp
  have tr: "consume_try failing_stream fresh_world l =
      Some (Raised KafkaError, fresh_world,
        l @ [(ERROR, ''ERROR: Could not consume messages from Kafka'')])" for l
    using stream_error_propagates [where c = failing_stream and w = fresh_world and l = l
        and e = KafkaError and w' = fresh_world and l' = l] run [of l]
    by simp
  from stream_error_propagates [where c = failing_stream and ev = "services_up failing_stream"
      and w = fresh_world] ev
  obtain l where "consume_messages_from_kafka (services_up failing_stream) fresh_world =
      consume_try failing_stream fresh_world l"
    by blast
  with tr [of l]
  have cm: "consume_messages_from_kafka (services_up failing_stream) fresh_world =
      Some (Raised KafkaError, fresh_world,
        l @ [(ERROR, ''ERROR: Could not consume messages from Kafka'')])"
    by simp
  from stream_error_propagates [where ev = "services_up failing_stream" and w0 = fresh_world
      and ?w2.0 = fresh_world and e = KafkaError and ?w3.0 = fresh_world
      and ?l4.0 = "l @ [(ERROR, ''ERROR: Could not consume messages from Kafka'')]"] ev bs cm
  have "map_option (\<lambda>(x, w, l). exit_code x) (main (services_up failing_stream) fresh_world) =
      Some 0"
    by blast
  with c0 run [of "[]"] tr [of "[]"] ev(1) bs cm show ?thesis by simp
qed

lemmas main_defs =
  main_def bootstrap_store_def delete_prior_file_def init_db_def consume_messages_from_kafka_def
  consume_try_def services_up_def fresh_world_def Let_def exit_status_def

text \<open>
  C6. Each of the six fatal failures is to end the process with a nonzero exit code of its
  own. The code misses this at the construction of the consumer: when \<^verbatim>\<open>create_kafka_consumer\<close> raises,
  the process ends with 11, the code of an unreachable broker, and when it returns
  \<^verbatim>\<open>None\<close>, the process ends with 13, the code of an unavailable topic. The four runs,
  each with a readable configuration and a usable store:
\<close>

theorem construction_failures_share_exit_codes:
  "exit_status (main ((services_up two_records)\<lparr>verify_services := Some KafkaError\<rparr>)
     fresh_world) = Some 11 \<and>
   exit_status (main ((services_up two_records)\<lparr>create_kafka_consumer := Inl KafkaError\<rparr>)
     fresh_world) = Some 11 \<and>
   exit_status (main ((services_up two_records)\<lparr>create_kafka_consumer := Inr None\<rparr>)
     fresh_world) = Some 13 \<and>
   exit_status (main ((services_up two_records)\<lparr>is_topic_available := Some KafkaError\<rparr>)
     fresh_world) = Some 13"
  by (simp add: main_defs)

lemma insert_message_flags:
  "insert_message p w = (w', r) \<Longrightarrow> medium_ok w' = medium_ok w \<and> unlink_ok w' = unlink_ok w"
  by (auto simp add: insert_message_def split: if_splits sqlite_file.splits option.splits
      sum.splits)

lemma for_preserves_flags:
  assumes "for_message_in_consumer c i w l = Some r"
  shows "medium_ok (fst (snd r)) = medium_ok w \<and> unlink_ok (fst (snd r)) = unlink_ok w"
  using assms
proof (induction rule: for_induct)
  case (Insert i w l v p pl w' r)
  with insert_message_flags [of p w w' None] show ?case by simp
next
  case (InsertFails i w l v p pl w' e)
  with insert_message_flags [of p w w' "Some e"] show ?case by simp
qed simp_all

lemma bootstrap_store_result:
  "fst (bootstrap_store w) = Inr w' \<Longrightarrow>
     w' = w\<lparr>store_file := Database (Some empty_table)\<rparr> \<and> medium_ok w \<and>
     (store_file w \<noteq> Absent \<longrightarrow> unlink_ok w)"
  by (auto simp add: bootstrap_store_def delete_prior_file_def init_db_def
      split: if_splits)

lemma bootstrap_store_succeeds:
  "medium_ok w \<Longrightarrow> unlink_ok w \<or> store_file w = Absent \<Longrightarrow>
     fst (bootstrap_store w) = Inr (w\<lparr>store_file := Database (Some empty_table)\<rparr>)"
  by (auto simp add: bootstrap_store_def delete_prior_file_def init_db_def)

text \<open>
  C7. Steps 2 and 3 of \<^verbatim>\<open>main\<close> recreate the store empty. For every prior state of the
  file (absent, not a database, a database with or without the table and with any rows),
  a bootstrap that is not stopped by a fatal exit leaves the table \<^verbatim>\<open>messages\<close> present
  and empty, and it is not stopped when the file can be unlinked and opened. So a second
  bootstrap, against the file the first run left behind with the rows that run inserted,
  succeeds and leaves an empty table again: nothing accumulates.
\<close>

theorem bootstrap_recreates_empty_store:
  "(fst (bootstrap_store w) = Inr w' \<longrightarrow>
      store_file w' = Database (Some empty_table) \<and> stored_rows w' = []) \<and>
   (medium_ok w \<and> unlink_ok w \<longrightarrow>
      fst (bootstrap_store w) = Inr (w\<lparr>store_file := Database (Some empty_table)\<rparr>)) \<and>
   (fst (bootstrap_store w) = Inr w1 \<and> unlink_ok w \<and>
    for_message_in_consumer c 0 w1 l = Some (out, w2, l2) \<longrightarrow>
      fst (bootstrap_store w2) = Inr (w2\<lparr>store_file := Database (Some empty_table)\<rparr>) \<and>
      stored_rows (w2\<lparr>store_file := Database (Some empty_table)\<rparr>) = [])"
proof -
  have a: "store_file w' = Database (Some empty_table) \<and> stored_rows w' = []"
    if "fst (bootstrap_store w) = Inr w'"
    using bootstrap_store_result [OF that] by (simp add: stored_rows_def empty_table_def)
  have b: "fst (bootstrap_store w) = Inr (w\<lparr>store_file := Database (Some empty_table)\<rparr>)"
    if "medium_ok w \<and> unlink_ok w"
    using that bootstrap_store_succeeds [of w] by simp
  have c: "fst (bootstrap_store w2) = Inr (w2\<lparr>store_file := Database (Some empty_table)\<rparr>) \<and>
      stored_rows (w2\<lparr>store_file := Database (Some empty_table)\<rparr>) = []"
    if h: "fst (bootstrap_store w) = Inr w1" "unlink_ok w"
      "for_message_in_consumer c 0 w1 l = Some (out, w2, l2)"
  proof -
    from bootstrap_store_result [OF h(1)] h(2)
    have "medium_ok w1" "unlink_ok w1" by simp_all
    with for_preserves_flags [OF h(3)] have "medium_ok w2" "unlink_ok w2" by simp_all
    then show ?thesis
      using bootstrap_store_succeeds [of w2] by (simp add: stored_rows_def empty_table_def)
  qed
  from a b c show ?thesis by blast
qed

theorem bootstrap_recreates_empty_store_witness:
  "medium_ok fresh_world \<and> unlink_ok fresh_world \<and>
   fst (bootstrap_store fresh_world) = Inr fresh_world \<and>
   (\<exists>out w2 l2. for_message_in_consumer three_records 0 fresh_world [] = Some (out, w2, l2) \<and>
      map col_message (stored_rows w2) = [SqlText ''check this meme'', SqlText ''hi''] \<and>
      fst (bootstrap_store w2) = Inr (w2\<lparr>store_file := Database (Some empty_table)\<rparr>) \<and>
      stored_rows (w2\<lparr>store_file := Database (Some empty_table)\<rparr>) = [])"
proof -
  have f: "medium_ok fresh_world \<and> unlink_ok fresh_world"
    by (simp add: fresh_world_def)
  from bootstrap_recreates_empty_store [of fresh_world] f
  have b1: "fst (bootstrap_store fresh_world) = Inr fresh_world"
    by (simp add: fresh_world_def)
  from three_records_run obtain out w2 l2 where
    run: "for_message_in_consumer three_records 0 fresh_world [] = Some (out, w2, l2)"
    and rows: "map col_message (stored_rows w2) = [SqlText ''check this meme'', SqlText ''hi'']"
    by (cases "for_message_in_consumer three_records 0 fresh_world []") auto
  from bootstrap_recreates_empty_store [of fresh_world _ fresh_world three_records "[]" out w2 l2]
    b1 f run
  have b2: "fst (bootstrap_store w2) = Inr (w2\<lparr>store_file := Database (Some empty_table)\<rparr>) \<and>
      stored_rows (w2\<lparr>store_file := Database (Some empty_table)\<rparr>) = []"
    by blast
  have "\<exists>out w2 l2. for_message_in_consumer three_records 0 fresh_world [] = Some (out, w2, l2) \<and>
      map col_message (stored_rows w2) = [SqlText ''check this meme'', SqlText ''hi''] \<and>
      fst (bootstrap_store w2) = Inr (w2\<lparr>store_file := Database (Some empty_table)\<rparr>) \<and>
      stored_rows (w2\<lparr>store_file := Database (Some empty_table)\<rparr>) = []"
    using run rows b2 by (intro exI [of _ out] exI [of _ w2] exI [of _ l2]) simp
  with f b1 show ?thesis by simp
qed

lemma bootstrap_store_exit_2:
  "store_file w \<noteq> Absent \<Longrightarrow> \<not> unlink_ok w \<Longrightarrow> fst (bootstrap_store w) = Inl (2, w)"
  by (simp add: bootstrap_store_def delete_prior_file_def)

lemma bootstrap_store_exit_3:
  "store_file w = Absent \<or> unlink_ok w \<Longrightarrow> \<not> medium_ok w \<Longrightarrow>
     fst (bootstrap_store w) = Inl (3, w\<lparr>store_file := Absent\<rparr>)"
  by (auto simp add: bootstrap_store_def delete_prior_file_def init_db_def)

lemma main_bootstrap_exit:
  "read_config ev = None \<Longrightarrow> fst (bootstrap_store w) = Inl (n, w') \<Longrightarrow>
     exit_status (main ev w) = Some n"
  by (cases "bootstrap_store w") (simp add: main_def exit_status_def Let_def)

lemma main_consume_exit:
  "read_config ev = None \<Longrightarrow> fst (bootstrap_store w) = Inr w2 \<Longrightarrow>
   consume_messages_from_kafka ev w2 = Some (out, w3, l) \<Longrightarrow>
   exit_status (main ev w) = Some (case out of SysExit n \<Rightarrow> n | _ \<Rightarrow> 0)"
  by (cases "bootstrap_store w"; cases out) (simp_all add: main_def exit_status_def Let_def)

text \<open>
  The exit status of \<^verbatim>\<open>main\<close> at each fatal failure, for every environment and store:
  1 when the configuration cannot be read, 2 when the prior file cannot be deleted, 3 when
  the schema cannot be initialized, 11 when the broker is unreachable or the construction
  of the consumer raises, 13 when the consumer is \<^verbatim>\<open>None\<close> or the topic is unavailable;
  and 0 after an interruption from the keyboard while consuming.
\<close>

lemma exit_codes_of_main:
  "(read_config ev = Some e \<longrightarrow> exit_status (main ev w) = Some 1) \<and>
   (read_config ev = None \<and> store_file w \<noteq> Absent \<and> \<not> unlink_ok w \<longrightarrow>
      exit_status (main ev w) = Some 2) \<and>
   (read_config ev = None \<and> (store_file w = Absent \<or> unlink_ok w) \<and> \<not> medium_ok w \<longrightarrow>
      exit_status (main ev w) = Some 3) \<and>
   (read_config ev = None \<and> fst (bootstrap_store w) = Inr w2 \<and> verify_services ev = Some e \<longrightarrow>
      exit_status (main ev w) = Some 11) \<and>
   (read_config ev = None \<and> fst (bootstrap_store w) = Inr w2 \<and> verify_services ev = None \<and>
    create_kafka_consumer ev = Inl e \<longrightarrow>
      exit_status (main ev w) = Some 11) \<and>
   (read_config ev = None \<and> fst (bootstrap_store w) = Inr w2 \<and> verify_services ev = None \<and>
    create_kafka_consumer ev = Inr (Some c) \<and> is_topic_available ev = Some e \<longrightarrow>
      exit_status (main ev w) = Some 13) \<and>
   (read_config ev = None \<and> fst (bootstrap_store w) = Inr w2 \<and> verify_services ev = None \<and>
    create_kafka_consumer ev = Inr None \<longrightarrow>
      exit_status (main ev w) = Some 13) \<and>
   (read_config ev = None \<and> fst (bootstrap_store w) = Inr w2 \<and>
    consume_messages_from_kafka ev w2 = Some (Interrupted, w3, l) \<longrightarrow>
      exit_status (main ev w) = Some 0)"
proof -
  have a: "read_config ev = Some e \<longrightarrow> exit_status (main ev w) = Some 1"
    by (simp add: main_def exit_status_def)
  have b: "read_config ev = None \<and> store_file w \<noteq> Absent \<and> \<not> unlink_ok w \<longrightarrow>
      exit_status (main ev w) = Some 2"
    using main_bootstrap_exit [of ev w 2 w] bootstrap_store_exit_2 [of w] by simp
  have c: "read_config ev = None \<and> (store_file w = Absent \<or> unlink_ok w) \<and> \<not> medium_ok w \<longrightarrow>
      exit_status (main ev w) = Some 3"
    using main_bootstrap_exit [of ev w 3 "w\<lparr>store_file := Absent\<rparr>"] bootstrap_store_exit_3 [of w]
    by blast
  have d: "read_config ev = None \<and> fst (bootstrap_store w) = Inr w2 \<and>
      verify_services ev = Some e \<longrightarrow> exit_status (main ev w) = Some 11"
  proof (intro impI)
    assume h: "read_config ev = None \<and> fst (bootstrap_store w) = Inr w2 \<and>
      verify_services ev = Some e"
    then obtain l where "consume_messages_from_kafka ev w2 = Some (SysExit 11, w2, l)"
      by (simp add: consume_messages_from_kafka_def)
    with h main_consume_exit [of ev w w2 "SysExit 11" w2 l] show "exit_status (main ev w) = Some 11"
      by simp
  qed
  have f: "read_config ev = None \<and> fst (bootstrap_store w) = Inr w2 \<and> verify_services ev = None \<and>
    create_kafka_consumer ev = Inl e \<longrightarrow> exit_status (main ev w) = Some 11"
  proof (intro impI)
    assume h: "read_config ev = None \<and> fst (bootstrap_store w) = Inr w2 \<and>
      verify_services ev = None \<and> create_kafka_consumer ev = Inl e"
    then obtain l where "consume_messages_from_kafka ev w2 = Some (SysExit 11, w2, l)"
      by (simp add: consume_messages_from_kafka_def)
    with h main_consume_exit [of ev w w2 "SysExit 11" w2 l] show "exit_status (main ev w) = Some 11"
      by simp
  qed
  have g: "read_config ev = None \<and> fst (bootstrap_store w) = Inr w2 \<and> verify_services ev = None \<and>
    create_kafka_consumer ev = Inr (Some c) \<and> is_topic_available ev = Some e \<longrightarrow>
      exit_status (main ev w) = Some 13"
  proof (intro impI)
    assume h: "read_config ev = None \<and> fst (bootstrap_store w) = Inr w2 \<and>
      verify_services ev = None \<and> create_kafka_consumer ev = Inr (Some c) \<and>
      is_topic_available ev = Some e"
    then obtain l where "consume_messages_from_kafka ev w2 = Some (SysExit 13, w2, l)"
      by (simp add: consume_messages_from_kafka_def)
    with h main_consume_exit [of ev w w2 "SysExit 13" w2 l] show "exit_status (main ev w) = Some 13"
      by simp
  qed
  have i: "read_config ev = None \<and> fst (bootstrap_store w) = Inr w2 \<and>
    consume_messages_from_kafka ev w2 = Some (Interrupted, w3, l) \<longrightarrow>
      exit_status (main ev w) = Some 0"
    using main_consume_exit [of ev w w2 Interrupted w3 l] by simp
  have h: "read_config ev = None \<and> fst (bootstrap_store w) = Inr w2 \<and> verify_services ev = None \<and>
    create_kafka_consumer ev = Inr None \<longrightarrow> exit_status (main ev w) = Some 13"
  proof (intro impI)
    assume h: "read_config ev = None \<and> fst (bootstrap_store w) = Inr w2 \<and>
      verify_services ev = None \<and> create_kafka_consumer ev = Inr None"
    then obtain l where "consume_messages_from_kafka ev w2 = Some (SysExit 13, w2, l)"
      by (simp add: consume_messages_from_kafka_def)
    with h main_consume_exit [of ev w w2 "SysExit 13" w2 l] show "exit_status (main ev w) = Some 13"
      by simp
  qed
  from a b c d f g h i show ?thesis by blast
qed

lemma exit_codes_of_main_examples:
  "exit_status (main ((services_up two_records)\<lparr>read_config := Some ValueError\<rparr>)
     fresh_world) = Some 1 \<and>
   exit_status (main (services_up two_records) undeletable_world) = Some 2 \<and>
   exit_status (main (services_up two_records) unreachable_world) = Some 3 \<and>
   exit_status (main ((services_up two_records)\<lparr>verify_services := Some KafkaError\<rparr>)
     fresh_world) = Some 11 \<and>
   exit_status (main ((services_up two_records)\<lparr>create_kafka_consumer := Inl KafkaError\<rparr>)
     fresh_world) = Some 11 \<and>
   exit_status (main ((services_up two_records)\<lparr>is_topic_available := Some KafkaError\<rparr>)
     fresh_world) = Some 13 \<and>
   (\<exists>l. consume_messages_from_kafka (services_up interrupted_stream) fresh_world =
      Some (Interrupted, fresh_world, l)) \<and>
   exit_status (main (services_up interrupted_stream) fresh_world) = Some 0"
proof -
  have bs: "fst (bootstrap_store fresh_world) = Inr fresh_world"
    by (simp add: bootstrap_store_def delete_prior_file_def init_db_def fresh_world_def)
  have r1: "exit_status (main ((services_up two_records)\<lparr>read_config := Some ValueError\<rparr>)
     fresh_world) = Some 1"
    using exit_codes_of_main [where ev = "(services_up two_records)\<lparr>read_config := Some ValueError\<rparr>"
        and e = ValueError and w = fresh_world]
    by simp
  have r2: "exit_status (main (services_up two_records) undeletable_world) = Some 2"
    using exit_codes_of_main [where ev = "services_up two_records" and w = undeletable_world]
    by (simp add: services_up_def undeletable_world_def)
  have r3: "exit_status (main (services_up two_records) unreachable_world) = Some 3"
    using exit_codes_of_main [where ev = "services_up two_records" and w = unreachable_world]
    by (simp add: services_up_def unreachable_world_def)
  have r4: "exit_status (main ((services_up two_records)\<lparr>verify_services := Some KafkaError\<rparr>)
     fresh_world) = Some 11"
    using exit_codes_of_main [where ev = "(services_up two_records)\<lparr>verify_services := Some KafkaError\<rparr>"
        and e = KafkaError and w = fresh_world and ?w2.0 = fresh_world] bs
    by (simp add: services_up_def)
  have r5: "exit_status (main ((services_up two_records)\<lparr>create_kafka_consumer := Inl KafkaError\<rparr>)
     fresh_world) = Some 11"
    using exit_codes_of_main [where ev = "(services_up two_records)\<lparr>create_kafka_consumer := Inl KafkaError\<rparr>"
        and e = KafkaError and w = fresh_world and ?w2.0 = fresh_world] bs
    by (simp add: services_up_def)
  have r6: "exit_status (main ((services_up two_records)\<lparr>is_topic_available := Some KafkaError\<rparr>)
     fresh_world) = Some 13"
    using exit_codes_of_main [where ev = "(services_up two_records)\<lparr>is_topic_available := Some KafkaError\<rparr>"
        and e = KafkaError and w = fresh_world and ?w2.0 = fresh_world and c = two_records] bs
    by (simp add: services_up_def)
  have "for_message_in_consumer interrupted_stream 0 w l = Some (Interrupted, w, l)" for w l
    using for_step_interrupt [of interrupted_stream 0 w l]
    by (simp add: interrupted_stream_def consumer_of_def)
  then obtain l where cm: "consume_messages_from_kafka (services_up interrupted_stream) fresh_world =
      Some (Interrupted, fresh_world, l)"
    by (simp add: consume_messages_from_kafka_def consume_try_def services_up_def)
  have r7: "exit_status (main (services_up interrupted_stream) fresh_world) = Some 0"
    using exit_codes_of_main [where ev = "services_up interrupted_stream" and w = fresh_world
        and ?w2.0 = fresh_world and ?w3.0 = fresh_world and l = l] bs cm
    by (simp add: services_up_def)
  from r1 r2 r3 r4 r5 r6 r7 cm show ?thesis by blast
qed

end
